theory Spec2Isabelle
  imports Complex_Main "HOL-Library.Word" "HOL-Library.Log_Nat"
begin

unbundle bit_operations_syntax

section \<open>Star trail generator (testing/starTrails_mask.py)\<close>

text \<open>
  The module holds one class, \<open>StarTrailGenerator\<close>, with two operations that matter:
  \<open>processImage\<close>, called once per decoded frame, and \<open>finalize\<close>, called once at the
  end. Both are built from a handful of NumPy and OpenCV array operations. This theory
  embeds the arrays, those library operations (by their documented contract on 8-bit
  arrays) and the two methods, and then states and proves the properties of the
  specification.

  What is left out: logging, the wall-clock bookkeeping (\<open>image_processing_elapsed_s\<close>),
  the \<open>filename\<close> argument (used for logging only), directory scanning and the JPEG
  encoder behind \<open>cv2.imwrite\<close>; \<open>finalize\<close> returns the image it would write.
\<close>

subsection \<open>Arrays\<close>

text \<open>
  A NumPy array of 8-bit samples: its first two dimensions and its buffer in row-major
  order, one element per pixel. An image read by \<open>cv2.imread\<close> from a JPEG file has
  shape \<open>(h, w)\<close> (one channel) or \<open>(h, w, 3)\<close> (blue, green, red).
\<close>

type_synonym u8 = "8 word"
type_synonym bgr = "u8 \<times> u8 \<times> u8"

datatype 'p ndarray = NdArray (height: nat) (width: nat) (buf: "'p list")

datatype image = Gray "u8 ndarray" | Color "bgr ndarray"

datatype error = InsufficentData string | CvError | TypeError | AttributeError

text \<open>\<open>image.shape[:2]\<close> and \<open>len(image.shape)\<close>.\<close>

fun shape2 :: "image \<Rightarrow> nat \<times> nat" where
  "shape2 (Gray a) = (height a, width a)"
| "shape2 (Color a) = (height a, width a)"

fun ndim :: "image \<Rightarrow> nat" where
  "ndim (Gray a) = 2"
| "ndim (Color a) = 3"

text \<open>\<open>numpy.zeros((h, w), dtype=uint8)\<close> and \<open>numpy.zeros((h, w, 3), dtype=uint8)\<close>.\<close>

definition zeros2 :: "nat \<Rightarrow> nat \<Rightarrow> image" where
  "zeros2 h w = Gray (NdArray h w (replicate (h * w) 0))"

definition zeros3 :: "nat \<Rightarrow> nat \<Rightarrow> image" where
  "zeros3 h w = Color (NdArray h w (replicate (h * w) (0, 0, 0)))"

text \<open>
  The buffer of a well-formed array has one element per pixel, and a decoded frame has
  more than three pixels. Smaller arrays are left out because OpenCV's arithmetic reads
  an array of 1 by 1, 1 by 3 or 3 by 1 as a scalar operand where the channel counts of the
  two operands differ, which the contract of \<open>cv_add\<close> below does not cover (and
  \<open>cv2.imread\<close> gives \<open>None\<close>, which \<open>main\<close> skips, rather than an empty array).
\<close>

definition wf_array :: "'p ndarray \<Rightarrow> bool" where
  "wf_array a = (length (buf a) = height a * width a \<and> 3 < height a * width a)"

fun wf_image :: "image \<Rightarrow> bool" where
  "wf_image (Gray a) = wf_array a"
| "wf_image (Color a) = wf_array a"

text \<open>The full shape of an image: rows, columns and number of dimensions.\<close>

definition shape :: "image \<Rightarrow> nat \<times> nat \<times> nat" where
  "shape img = (fst (shape2 img), snd (shape2 img), ndim img)"

subsection \<open>The OpenCV operations used\<close>

text \<open>
  \<open>cv2.cvtColor(image, cv2.COLOR_BGR2GRAY)\<close> on 8-bit samples is the fixed-point
  luminance \<open>(3735 B + 19235 G + 9798 R + 2^14) >> 15\<close>. The source calls it on
  three-channel frames only and copies a one-channel frame; \<open>gray_view\<close> is that
  \<open>if len(image.shape) == 2\<close> block, which occurs in both methods.
\<close>

definition bgr2gray :: "bgr \<Rightarrow> u8" where
  "bgr2gray p = (case p of (b, g, r) \<Rightarrow>
     word_of_nat ((unat b * 3735 + unat g * 19235 + unat r * 9798 + 16384) div 32768))"

fun gray_view :: "image \<Rightarrow> u8 ndarray" where
  "gray_view (Gray a) = a"
| "gray_view (Color a) = NdArray (height a) (width a) (map bgr2gray (buf a))"

text \<open>
  Python's floats and OpenCV's means are IEEE doubles: rationals with a 53-bit
  significand, every operation rounded to the nearest of them, ties to the even
  significand. \<open>to_double\<close> is that rounding, with \<open>binade x\<close> the exponent of the power of
  two at or below \<open>x\<close>. The exponent is not bounded here: the values of this program
  (means between 0 and 255, reciprocals of pixel counts, cutoffs) are far from overflow
  and from the subnormal numbers.
\<close>

definition pow2 :: "int \<Rightarrow> rat" where
  "pow2 e = (if 0 \<le> e then 2 ^ nat e else 1 / 2 ^ nat (- e))"

definition round_half_even :: "rat \<Rightarrow> int" where
  "round_half_even y =
     (let f = \<lfloor>y\<rfloor>; r = y - of_int f
      in if r < 1 / 2 then f else if 1 / 2 < r then f + 1 else if even f then f else f + 1)"

definition binade :: "rat \<Rightarrow> int" where
  "binade x = (case quotient_of x of (p, q) \<Rightarrow>
     let e = bitlen p - bitlen q in if pow2 e \<le> x then e else e - 1)"

definition to_double :: "rat \<Rightarrow> rat" where
  "to_double x =
     (if x = 0 then 0
      else let ulp = pow2 (binade \<bar>x\<bar> - 52)
           in sgn x * of_int (round_half_even (\<bar>x\<bar> / ulp)) * ulp)"

text \<open>
  \<open>cv2.mean(image_gray)[0]\<close>: OpenCV sums the samples (exactly, for fewer than \<open>2^45\<close>
  pixels) and returns the double \<open>sum * (1. / count)\<close>, two rounded operations; the mean of
  an empty array is 0. So the mean of 91 samples of 50 is a little above 50.
\<close>

definition cv_mean :: "u8 ndarray \<Rightarrow> rat" where
  "cv_mean a =
     to_double (of_int (sum_list (map uint (buf a))) * to_double (1 / of_nat (length (buf a))))"

text \<open>\<open>(image_gray > thr).sum()\<close>: the number of samples strictly above the threshold.\<close>

definition count_above :: "u8 ndarray \<Rightarrow> int \<Rightarrow> nat" where
  "count_above a thr = sum_list (map (\<lambda>g. if thr < uint g then 1 else 0) (buf a))"

text \<open>
  \<open>cv2.threshold(src, thresh, maxval, cv2.THRESH_BINARY)[1]\<close>: \<open>maxval\<close> where the sample
  is strictly above \<open>thresh\<close>, 0 elsewhere. \<open>cv2.bitwise_not\<close> inverts every bit.
\<close>

definition threshold_binary :: "u8 ndarray \<Rightarrow> int \<Rightarrow> u8 \<Rightarrow> u8 ndarray" where
  "threshold_binary a thresh maxval =
     NdArray (height a) (width a) (map (\<lambda>g. if thresh < uint g then maxval else 0) (buf a))"

definition bitwise_not :: "u8 ndarray \<Rightarrow> u8 ndarray" where
  "bitwise_not a = NdArray (height a) (width a) (map (\<lambda>m. NOT m) (buf a))"

text \<open>
  \<open>cv2.bitwise_and(src1, src2, mask=mask)\<close>: the two sources must agree in size and
  channels and the mask in size, else OpenCV raises \<open>cv2.error\<close>. The result, freshly
  allocated, is \<open>src1 AND src2\<close> where the mask is non-zero and zero elsewhere.
\<close>

definition and_bgr :: "bgr \<Rightarrow> bgr \<Rightarrow> bgr" where
  "and_bgr p q = (case p of (b, g, r) \<Rightarrow> case q of (b', g', r') \<Rightarrow> (b AND b', g AND g', r AND r'))"

definition and_masked ::
  "('p \<Rightarrow> 'p \<Rightarrow> 'p) \<Rightarrow> 'p \<Rightarrow> 'p ndarray \<Rightarrow> 'p ndarray \<Rightarrow> u8 ndarray \<Rightarrow> error + 'p ndarray" where
  "and_masked f z a b m =
     (if height b = height a \<and> width b = width a \<and> height m = height a \<and> width m = width a
      then Inr (NdArray (height a) (width a)
                  (map2 (\<lambda>(x, y) k. if k \<noteq> 0 then f x y else z) (zip (buf a) (buf b)) (buf m)))
      else Inl CvError)"

fun bitwise_and :: "image \<Rightarrow> image \<Rightarrow> u8 ndarray \<Rightarrow> error + image" where
  "bitwise_and (Gray a) (Gray b) m = map_sum id Gray (and_masked (AND) 0 a b m)"
| "bitwise_and (Color a) (Color b) m = map_sum id Color (and_masked and_bgr (0, 0, 0) a b m)"
| "bitwise_and _ _ m = Inl CvError"

text \<open>
  \<open>cv2.add(src1, src2)\<close>: per-channel saturating addition of two arrays of the same size
  and channels; \<open>cv2.error\<close> otherwise (for arrays of more than three pixels: a smaller
  one may pass for a scalar).
\<close>

definition add_u8 :: "u8 \<Rightarrow> u8 \<Rightarrow> u8" where
  "add_u8 x y = word_of_nat (min (unat x + unat y) 255)"

definition add_bgr :: "bgr \<Rightarrow> bgr \<Rightarrow> bgr" where
  "add_bgr p q = (case p of (b, g, r) \<Rightarrow> case q of (b', g', r') \<Rightarrow>
     (add_u8 b b', add_u8 g g', add_u8 r r'))"

definition add_arrays :: "('p \<Rightarrow> 'p \<Rightarrow> 'p) \<Rightarrow> 'p ndarray \<Rightarrow> 'p ndarray \<Rightarrow> error + 'p ndarray" where
  "add_arrays f a b =
     (if height b = height a \<and> width b = width a
      then Inr (NdArray (height a) (width a) (map2 f (buf a) (buf b)))
      else Inl CvError)"

fun cv_add :: "image \<Rightarrow> image \<Rightarrow> error + image" where
  "cv_add (Gray a) (Gray b) = map_sum id Gray (add_arrays add_u8 a b)"
| "cv_add (Color a) (Color b) = map_sum id Color (add_arrays add_bgr a b)"
| "cv_add _ _ = Inl CvError"

subsection \<open>The generator\<close>

text \<open>
  The fields of \<open>StarTrailGenerator\<close>. The three settable properties are
  \<open>max_brightness\<close>, \<open>mask_threshold\<close> (an integer on the command line) and
  \<open>pixel_cutoff_threshold\<close> (a percentage, a float). The floats are the rationals that
  are doubles; the literal \<open>0.1\<close> is the double nearest to one tenth. \<open>new_generator\<close> is
  \<open>__init__\<close>.
\<close>

record generator =
  max_brightness :: rat
  mask_threshold :: int
  pixel_cutoff_threshold :: rat
  trail_image :: "image option"
  trail_count :: nat
  pixels_cutoff :: "rat option"
  excluded_images :: nat
  background_image :: "image option"
  background_image_brightness :: rat
  background_image_min_brightness :: rat

definition new_generator :: generator where
  "new_generator =
     \<lparr> max_brightness = 50, mask_threshold = 190,
       pixel_cutoff_threshold = to_double (1 / 10),
       trail_image = None, trail_count = 0, pixels_cutoff = None, excluded_images = 0,
       background_image = None, background_image_brightness = 255,
       background_image_min_brightness = 10 \<rparr>"

text \<open>
  The block that both methods end with (lines 137 to 148 and 172 to 183): threshold the
  gray view, invert the mask, black out the star area of the background, keep only the
  stars of the other image, and add the two.
\<close>

definition put_stars_on_background :: "image \<Rightarrow> image \<Rightarrow> u8 ndarray \<Rightarrow> int \<Rightarrow> error + image" where
  "put_stars_on_background background stars stars_gray thresh =
     (let mask = threshold_binary stars_gray thresh 255;
          mask_inv = bitwise_not mask
      in case bitwise_and background background mask_inv of
           Inl e \<Rightarrow> Inl e
         | Inr bg_masked \<Rightarrow>
             (case bitwise_and stars stars mask of
                Inl e \<Rightarrow> Inl e
              | Inr stars_masked \<Rightarrow> cv_add bg_masked stars_masked))"

text \<open>
  Lines 97 to 106 of \<open>processImage\<close>: the first frame fixes the pixel cutoff and the
  shape of the trail image, which starts black. The cutoff of line 100 is float
  arithmetic: the percentage divided by 100, then the pixel count, converted to a float,
  times that.
\<close>

definition establish :: "generator \<Rightarrow> image \<Rightarrow> generator" where
  "establish self img =
     (case trail_image self of
        Some _ \<Rightarrow> self
      | None \<Rightarrow>
          (case shape2 img of (image_height, image_width) \<Rightarrow>
             self\<lparr> pixels_cutoff :=
                      Some (to_double (to_double (of_nat (image_height * image_width))
                                       * to_double (pixel_cutoff_threshold self / 100))),
                    trail_image :=
                      Some (if ndim img = 2 then zeros2 image_height image_width
                            else zeros3 image_height image_width) \<rparr>))"

text \<open>
  \<open>processImage\<close>. A Python method that raises leaves the object as it was at the raise,
  so the result is either \<open>Inr\<close> of the generator after a normal return or \<open>Inl\<close> of the
  exception with the generator at that moment. Comparing a count with a cutoff that is
  still \<open>None\<close> is a \<open>TypeError\<close> in Python, and OpenCV refuses \<open>None\<close> for an array;
  neither happens after \<open>establish\<close> unless the fields were set from outside.
\<close>

definition processImage :: "generator \<Rightarrow> image \<Rightarrow> (error \<times> generator) + generator" where
  "processImage self0 img =
     (let self = establish self0 img;
          image_gray = gray_view img;
          m_avg = cv_mean image_gray
      in if m_avg > max_brightness self then Inr self
         else
           (case pixels_cutoff self of
              None \<Rightarrow> Inl (TypeError, self)
            | Some cutoff \<Rightarrow>
                if of_nat (count_above image_gray (mask_threshold self)) > cutoff
                then Inr (self\<lparr> excluded_images := excluded_images self + 1 \<rparr>)
                else
                  (let self = self\<lparr> trail_count := trail_count self + 1 \<rparr>;
                       self =
                         (if m_avg < background_image_brightness self
                             \<and> m_avg > background_image_min_brightness self
                          then self\<lparr> background_image_brightness := m_avg,
                                     background_image := Some img \<rparr>
                          else self)
                   in case trail_image self of
                        None \<Rightarrow> Inl (CvError, self)
                      | Some trail \<Rightarrow>
                          (case put_stars_on_background trail img image_gray (mask_threshold self) of
                             Inl e \<Rightarrow> Inl (e, self)
                           | Inr new_trail \<Rightarrow> Inr (self\<lparr> trail_image := Some new_trail \<rparr>)))))"

text \<open>
  \<open>finalize\<close>, up to the image it hands to \<open>cv2.imwrite\<close>. The two guards come first, in
  this order; the frame count 20 and the threshold 10 are literals in the source.
\<close>

definition finalize :: "generator \<Rightarrow> error + image" where
  "finalize self =
     (case background_image self of
        None \<Rightarrow> Inl (InsufficentData ''Background image not detected'')
      | Some background \<Rightarrow>
          if trail_count self < 20
          then Inl (InsufficentData ''Not enough images found to build star trail'')
          else
            (case trail_image self of
               None \<Rightarrow> Inl AttributeError
             | Some trail \<Rightarrow> put_stars_on_background background trail (gray_view trail) 10))"

text \<open>
  The loop of \<open>main\<close> over the decoded frames, oldest first: an exception of
  \<open>processImage\<close> is not caught and ends the run. \<open>main\<close> then finalizes; it catches
  \<open>InsufficentData\<close> and logs it, and no image is written. The result of \<open>main\<close> here
  is the image written or the exception that prevented it.
\<close>

fun feed :: "generator \<Rightarrow> image list \<Rightarrow> (error \<times> generator) + generator" where
  "feed self [] = Inr self"
| "feed self (img # rest) =
     (case processImage self img of
        Inl e \<Rightarrow> Inl e
      | Inr self' \<Rightarrow> feed self' rest)"

definition main :: "generator \<Rightarrow> image list \<Rightarrow> error + image" where
  "main self images =
     (case feed self images of
        Inl (e, _) \<Rightarrow> Inl e
      | Inr self' \<Rightarrow> finalize self')"

subsection \<open>Notions used in the statements\<close>

text \<open>
  The generator a call leaves behind, whether it returned or raised.
\<close>

definition state_after :: "(error \<times> generator) + generator \<Rightarrow> generator" where
  "state_after r = (case r of Inl (e, self) \<Rightarrow> self | Inr self \<Rightarrow> self)"

text \<open>
  The three ways through \<open>processImage\<close>: the test of line 116 succeeds (\<open>overbright\<close>);
  line 123 is reached and its test succeeds (\<open>saturated\<close>); line 128 is reached
  (\<open>accepted\<close>). The cutoff is the one in force during the call, which the first call sets.
\<close>

definition overbright :: "generator \<Rightarrow> image \<Rightarrow> bool" where
  "overbright self img = (cv_mean (gray_view img) > max_brightness self)"

definition saturated :: "generator \<Rightarrow> image \<Rightarrow> bool" where
  "saturated self img =
     (\<not> overbright self img \<and>
      (case pixels_cutoff (establish self img) of
         None \<Rightarrow> False
       | Some cutoff \<Rightarrow> of_nat (count_above (gray_view img) (mask_threshold self)) > cutoff))"

definition accepted :: "generator \<Rightarrow> image \<Rightarrow> bool" where
  "accepted self img =
     (\<not> overbright self img \<and>
      (case pixels_cutoff (establish self img) of
         None \<Rightarrow> False
       | Some cutoff \<Rightarrow> \<not> of_nat (count_above (gray_view img) (mask_threshold self)) > cutoff))"

text \<open>The test of line 130, and lines 128 to 134 as one update.\<close>

definition new_background :: "generator \<Rightarrow> image \<Rightarrow> bool" where
  "new_background self img =
     (cv_mean (gray_view img) < background_image_brightness self
      \<and> cv_mean (gray_view img) > background_image_min_brightness self)"

definition accept :: "generator \<Rightarrow> image \<Rightarrow> generator" where
  "accept self img =
     (if new_background self img
      then self\<lparr> trail_count := trail_count self + 1,
                 background_image_brightness := cv_mean (gray_view img),
                 background_image := Some img \<rparr>
      else self\<lparr> trail_count := trail_count self + 1 \<rparr>)"

text \<open>
  Pixels by index: the channel samples of pixel \<open>i\<close> of the buffer, the number of
  pixels, and whether the gray sample of pixel \<open>i\<close> is strictly above a threshold (the
  mask \<open>M\<close> of the specification; its complement \<open>M'\<close> is the negation).
\<close>

fun samples :: "image \<Rightarrow> nat \<Rightarrow> u8 list" where
  "samples (Gray a) i = [buf a ! i]"
| "samples (Color a) i = (case buf a ! i of (b, g, r) \<Rightarrow> [b, g, r])"

definition npixels :: "image \<Rightarrow> nat" where
  "npixels img = fst (shape2 img) * snd (shape2 img)"

definition is_star :: "image \<Rightarrow> int \<Rightarrow> nat \<Rightarrow> bool" where
  "is_star img thresh i = (thresh < uint (buf (gray_view img) ! i))"

text \<open>A pixel masked by a binary mask: kept where the mask is set, black elsewhere.\<close>

definition masked_by :: "bool \<Rightarrow> u8 list \<Rightarrow> u8 list" where
  "masked_by m p = (if m then p else map (\<lambda>_. 0) p)"

text \<open>
  Pixelwise selection: the star source where the gray sample is above the threshold, the
  background source elsewhere.
\<close>

definition select_list :: "int \<Rightarrow> 'p list \<Rightarrow> 'p list \<Rightarrow> u8 list \<Rightarrow> 'p list" where
  "select_list thresh bs ss gs =
     map (\<lambda>(b, s, g). if thresh < uint g then s else b) (zip bs (zip ss gs))"

fun select_image :: "int \<Rightarrow> image \<Rightarrow> image \<Rightarrow> u8 ndarray \<Rightarrow> image" where
  "select_image thresh (Gray a) (Gray b) g =
     Gray (NdArray (height a) (width a) (select_list thresh (buf a) (buf b) (buf g)))"
| "select_image thresh (Color a) (Color b) g =
     Color (NdArray (height a) (width a) (select_list thresh (buf a) (buf b) (buf g)))"
| "select_image thresh background _ _ = background"

text \<open>
  What every generator reached by calls that returned satisfies: once the trail image
  exists it is well formed and the cutoff is set, and a background image has its shape.
\<close>

definition consistent :: "generator \<Rightarrow> bool" where
  "consistent self =
     (case trail_image self of
        None \<Rightarrow> background_image self = None
      | Some trail \<Rightarrow>
          wf_image trail \<and> pixels_cutoff self \<noteq> None \<and>
          (case background_image self of
             None \<Rightarrow> True
           | Some background \<Rightarrow> wf_image background \<and> shape background = shape trail))"

subsection \<open>Concrete generators and frames\<close>

text \<open>The cutoff that the default percentage gives a frame of \<open>n\<close> pixels.\<close>

definition default_cutoff :: "nat \<Rightarrow> rat" where
  "default_cutoff n = to_double (to_double (of_nat n) * to_double (to_double (1 / 10) / 100))"

text \<open>
  A one-channel 2 by 2 frame of brightness 20 and the generator after it: the frame is
  accepted and is the background image from then on. Then a three-channel frame of the
  same size, and one-channel 2 by 4 frames of brightness 20, 200 and 15.
\<close>

definition dim_frame :: image where
  "dim_frame = Gray (NdArray 2 2 [20, 20, 20, 20])"

definition established :: generator where
  "established =
     new_generator\<lparr> pixels_cutoff := Some (default_cutoff 4),
       trail_image := Some (Gray (NdArray 2 2 [0, 0, 0, 0])), trail_count := 1,
       background_image_brightness := 20,
       background_image := Some dim_frame \<rparr>"

definition color_frame :: image where
  "color_frame = Color (NdArray 2 2 [(20, 20, 20), (20, 20, 20), (20, 20, 20), (20, 20, 20)])"

definition wide_frame :: image where
  "wide_frame = Gray (NdArray 2 4 [20, 20, 20, 20, 20, 20, 20, 20])"

definition bright_frame :: image where
  "bright_frame = Gray (NdArray 2 4 [200, 200, 200, 200, 200, 200, 200, 200])"

definition dimmer_frame :: image where
  "dimmer_frame = Gray (NdArray 2 4 [15, 15, 15, 15, 15, 15, 15, 15])"

text \<open>
  The established generator after \<open>processImage\<close> has raised on the 2 by 4 frame of
  brightness 15, which it had already counted and taken as the background image; and
  that generator 18 frames later.
\<close>

definition after_raise :: generator where
  "after_raise =
     established\<lparr> trail_count := 2, background_image_brightness := 15,
       background_image := Some dimmer_frame \<rparr>"

definition after_raise_and_more :: generator where
  "after_raise_and_more = after_raise\<lparr> trail_count := 20 \<rparr>"

text \<open>
  Frames on which the rounding of the mean decides: 91 samples of 50 have the mean
  \<open>4550 * (1. / 91)\<close>, just above 50, and 105 samples of 10 the mean \<open>1050 * (1. / 105)\<close>,
  just above 10.
\<close>

definition fifties_frame :: image where
  "fifties_frame = Gray (NdArray 7 13 (replicate 91 50))"

definition tens_frame :: image where
  "tens_frame = Gray (NdArray 7 15 (replicate 105 10))"

text \<open>
  A generator with the cutoff percentage set to 50 (\<open>--pixel_cutoff_threshold 50\<close>), so
  that an eight-pixel frame may hold a star, and two such frames with stars at different
  places; the generator after the first frame, and after both.
\<close>

definition lenient :: generator where
  "lenient = new_generator\<lparr> pixel_cutoff_threshold := 50 \<rparr>"

definition frame_a :: image where
  "frame_a = Gray (NdArray 1 8 [200, 0, 0, 0, 0, 0, 0, 0])"

definition frame_b :: image where
  "frame_b = Gray (NdArray 1 8 [0, 0, 255, 0, 0, 0, 0, 0])"

definition after_a :: generator where
  "after_a =
     lenient\<lparr> pixels_cutoff := Some 4,
       trail_image := Some (Gray (NdArray 1 8 [200, 0, 0, 0, 0, 0, 0, 0])), trail_count := 1,
       background_image_brightness := 25,
       background_image := Some frame_a \<rparr>"

definition after_a_b :: generator where
  "after_a_b =
     after_a\<lparr> trail_image := Some (Gray (NdArray 1 8 [200, 0, 255, 0, 0, 0, 0, 0])),
       trail_count := 2 \<rparr>"

text \<open>The generator after the first frame and nineteen times the second.\<close>

definition after_twenty :: generator where
  "after_twenty = after_a_b\<lparr> trail_count := 20 \<rparr>"

text \<open>
  A third frame, with its star where the first frame has one, and the generator after the
  first and the third.
\<close>

definition frame_c :: image where
  "frame_c = Gray (NdArray 1 8 [210, 0, 0, 0, 0, 0, 0, 0])"

definition after_a_c :: generator where
  "after_a_c =
     after_a\<lparr> trail_image := Some (Gray (NdArray 1 8 [210, 0, 0, 0, 0, 0, 0, 0])),
       trail_count := 2 \<rparr>"

text \<open>
  The end-to-end scenario of the specification, with frames of mean brightness 20: 25
  one-channel frames of 100 by 100 pixels, frame \<open>k\<close> with the value 255 at row \<open>k\<close>, column
  \<open>k\<close> (index \<open>101 k\<close> of the buffer) over a dim sky of 9765 samples of 20 and 235 of 19,
  which sum with the bright one to 200000. \<open>paint\<close> sets the 25 pixels in a buffer:
  \<open>star_trail\<close> is the black buffer with them set, \<open>star_output\<close> the sky with them set,
  and \<open>after_star_frames\<close> the generator after the 25 frames.
\<close>

definition sky :: "u8 list" where
  "sky = replicate 9765 20 @ replicate 235 19"

definition star_frame :: "nat \<Rightarrow> image" where
  "star_frame k = Gray (NdArray 100 100 (sky[101 * k := 255]))"

definition star_frames :: "image list" where
  "star_frames = map star_frame [0..<25]"

definition paint :: "nat list \<Rightarrow> u8 list \<Rightarrow> u8 list" where
  "paint ks ts = fold (\<lambda>k xs. xs[101 * k := 255]) ks ts"

definition star_trail :: "u8 list" where
  "star_trail = paint [0..<25] (replicate 10000 0)"

definition star_output :: "u8 list" where
  "star_output = paint [0..<25] sky"

definition after_star_frames :: generator where
  "after_star_frames =
     new_generator\<lparr> pixels_cutoff := Some 10,
       trail_image := Some (Gray (NdArray 100 100 star_trail)), trail_count := 25,
       background_image_brightness := 20,
       background_image := Some (star_frame 0) \<rparr>"

section \<open>Basic facts\<close>

subsection \<open>Samples\<close>

lemma unat_u8_le: "unat (x :: u8) \<le> 255"
  using unsigned_less [of x, where 'a = nat] by simp

lemma add_u8_0_right: "add_u8 x 0 = x"
  using unat_u8_le [of x] by (simp add: add_u8_def min_def)

lemma add_u8_0_left: "add_u8 0 y = y"
  using unat_u8_le [of y] by (simp add: add_u8_def min_def)

lemma add_bgr_0_right: "add_bgr p (0, 0, 0) = p"
  by (cases p) (simp add: add_bgr_def add_u8_0_right)

lemma add_bgr_0_left: "add_bgr (0, 0, 0) p = p"
  by (cases p) (simp add: add_bgr_def add_u8_0_left)

lemma and_bgr_same: "and_bgr p p = p"
  by (cases p) (simp add: and_bgr_def)

lemma and_u8_same: "(x :: u8) AND x = x"
  by simp

subsection \<open>The compositing block is a selection\<close>

text \<open>
  On the buffers: whatever their lengths, adding the two masked lists gives the selection.
  The pixel type, its AND, its zero and its addition are parameters, so that the lemma
  serves one-channel and three-channel images.
\<close>

lemma masked_lists:
  fixes bs ss :: "'p list" and gs :: "u8 list"
  assumes idem: "\<And>x. f x x = x" and zr: "\<And>x. add x z = x" and zl: "\<And>x. add z x = x"
  shows
  "map2 add
     (map2 (\<lambda>(x, y) k. if k \<noteq> 0 then f x y else z) (zip bs bs)
        (map ((\<lambda>m. NOT m) \<circ> (\<lambda>g. if thresh < uint g then (255 :: u8) else 0)) gs))
     (map2 (\<lambda>(x, y) k. if k \<noteq> 0 then f x y else z) (zip ss ss)
        (map (\<lambda>g. if thresh < uint g then (255 :: u8) else 0) gs))
   = select_list thresh bs ss gs"
proof (induction bs arbitrary: ss gs)
  case Nil
  then show ?case by (simp add: select_list_def)
next
  case (Cons b bs)
  show ?case
  proof (cases ss)
    case Nil
    then show ?thesis by (simp add: select_list_def)
  next
    case ss: (Cons s ss')
    show ?thesis
    proof (cases gs)
      case Nil
      then show ?thesis by (simp add: select_list_def)
    next
      case gs: (Cons g gs')
      show ?thesis
        using Cons.IH ss gs
        by (simp add: select_list_def idem zr zl)
    qed
  qed
qed

lemmas masked_lists_gray =
  masked_lists [of "(AND)" add_u8 0, OF and_u8_same add_u8_0_right add_u8_0_left]

lemmas masked_lists_bgr =
  masked_lists [of and_bgr add_bgr "(0, 0, 0)", OF and_bgr_same add_bgr_0_right add_bgr_0_left]

lemma and_masked_same:
  "and_masked f z a a m =
     (if height m = height a \<and> width m = width a
      then Inr (NdArray (height a) (width a)
                  (map2 (\<lambda>(x, y) k. if k \<noteq> 0 then f x y else z) (zip (buf a) (buf a)) (buf m)))
      else Inl CvError)"
  by (simp add: and_masked_def)

lemma put_stars_Gray:
  "put_stars_on_background (Gray a) (Gray b) g thresh =
     (if height g = height a \<and> width g = width a \<and> height b = height a \<and> width b = width a
      then Inr (select_image thresh (Gray a) (Gray b) g) else Inl CvError)"
  by (auto simp: put_stars_on_background_def and_masked_same add_arrays_def threshold_binary_def
      bitwise_not_def Let_def masked_lists_gray)

lemma put_stars_Color:
  "put_stars_on_background (Color a) (Color b) g thresh =
     (if height g = height a \<and> width g = width a \<and> height b = height a \<and> width b = width a
      then Inr (select_image thresh (Color a) (Color b) g) else Inl CvError)"
  by (auto simp: put_stars_on_background_def and_masked_same add_arrays_def threshold_binary_def
      bitwise_not_def Let_def masked_lists_bgr)

lemma put_stars_Gray_Color:
  "put_stars_on_background (Gray a) (Color b) g thresh = Inl CvError"
  by (auto simp: put_stars_on_background_def Let_def and_masked_same split: sum.splits if_splits)

lemma put_stars_Color_Gray:
  "put_stars_on_background (Color a) (Gray b) g thresh = Inl CvError"
  by (auto simp: put_stars_on_background_def Let_def and_masked_same split: sum.splits if_splits)

lemma shape_gray_view:
  "height (gray_view img) = fst (shape2 img)" "width (gray_view img) = snd (shape2 img)"
  by (cases img; simp)+

text \<open>
  With the gray view of the star source as the mask source, as both methods call it, the
  block raises exactly when the two images differ in shape.
\<close>

lemma put_stars_shape:
  "put_stars_on_background background stars (gray_view stars) thresh =
     (if shape stars = shape background
      then Inr (select_image thresh background stars (gray_view stars)) else Inl CvError)"
  by (cases background; cases stars)
     (auto simp: put_stars_Gray put_stars_Color put_stars_Gray_Color put_stars_Color_Gray shape_def)

subsection \<open>The paths through processImage\<close>

lemma establish_fields [simp]:
  "max_brightness (establish self img) = max_brightness self"
  "mask_threshold (establish self img) = mask_threshold self"
  "pixel_cutoff_threshold (establish self img) = pixel_cutoff_threshold self"
  "trail_count (establish self img) = trail_count self"
  "excluded_images (establish self img) = excluded_images self"
  "background_image (establish self img) = background_image self"
  "background_image_brightness (establish self img) = background_image_brightness self"
  "background_image_min_brightness (establish self img) = background_image_min_brightness self"
  by (auto simp: establish_def split: option.splits prod.splits)

lemma establish_Some [simp]: "trail_image self = Some t \<Longrightarrow> establish self img = self"
  by (simp add: establish_def)

lemma shape_zeros:
  "shape (if ndim img = 2 then zeros2 (fst (shape2 img)) (snd (shape2 img))
          else zeros3 (fst (shape2 img)) (snd (shape2 img))) = shape img"
  by (cases img) (simp_all add: shape_def zeros2_def zeros3_def)

lemma establish_None:
  "trail_image self = None \<Longrightarrow>
     trail_image (establish self img)
       = Some (if ndim img = 2 then zeros2 (fst (shape2 img)) (snd (shape2 img))
               else zeros3 (fst (shape2 img)) (snd (shape2 img)))
     \<and> pixels_cutoff (establish self img)
         = Some (to_double (to_double (of_nat (fst (shape2 img) * snd (shape2 img)))
                            * to_double (pixel_cutoff_threshold self / 100)))"
  by (simp add: establish_def split: prod.splits)

lemma processImage_overbright:
  "overbright self img \<Longrightarrow> processImage self img = Inr (establish self img)"
  by (simp add: processImage_def overbright_def Let_def)

lemma processImage_saturated:
  "saturated self img \<Longrightarrow>
     processImage self img = Inr ((establish self img)\<lparr> excluded_images := excluded_images self + 1 \<rparr>)"
  by (auto simp: processImage_def overbright_def saturated_def Let_def split: option.splits)

lemma processImage_accepted:
  assumes "accepted self img" and "trail_image (establish self img) = Some old"
  shows "processImage self img =
     (case put_stars_on_background old img (gray_view img) (mask_threshold self) of
        Inl e \<Rightarrow> Inl (e, accept (establish self img) img)
      | Inr new_trail \<Rightarrow> Inr ((accept (establish self img) img)\<lparr> trail_image := Some new_trail \<rparr>))"
  using assms
  by (auto simp: processImage_def overbright_def accepted_def accept_def new_background_def Let_def
      split: sum.splits option.splits)

lemma shape_select_image [simp]:
  "shape (select_image thresh background stars g) = shape background"
  by (cases background; cases stars) (simp_all add: shape_def)

lemma exclusive_paths:
  "pixels_cutoff (establish self img) = Some c \<Longrightarrow>
     accepted self img = (\<not> overbright self img \<and> \<not> saturated self img)"
  by (auto simp: accepted_def saturated_def)

section \<open>Shape errors\<close>

text \<open>
  C1. The specification says that a frame whose dimensions or channel count disagree
  with the established ones makes \<open>processFrame\<close> return a \<open>DimensionMismatch\<close> error, that
  a matching frame never fails, and that the first call always succeeds and establishes
  the dimensions.

  The source has no shape check of its own. A frame of another shape fails only where
  OpenCV refuses the arrays, in the compositing block, which an excluded frame never
  reaches. So: the first call returns and leaves a trail image of the frame's shape;
  later, with the trail image and the cutoff set, the call raises (\<open>cv2.error\<close>) exactly
  when the shapes differ and the frame is neither overbright nor saturated, and returns
  otherwise. The frame is a well-formed one; the proof does not need it, but the model
  of \<open>cv2.add\<close> is OpenCV's only there.
\<close>

theorem processImage_raises_iff:
  assumes "wf_image img"
  shows
  "(trail_image self = None \<longrightarrow>
      (\<exists>self' t. processImage self img = Inr self' \<and> trail_image self' = Some t
         \<and> shape t = shape img))
   \<and> (\<forall>t c. trail_image self = Some t \<and> pixels_cutoff self = Some c \<longrightarrow>
        (if shape img \<noteq> shape t \<and> \<not> overbright self img \<and> \<not> saturated self img
         then \<exists>self'. processImage self img = Inl (CvError, self')
         else \<exists>self'. processImage self img = Inr self'))"
proof (intro conjI impI allI)
  assume first: "trail_image self = None"
  let ?z = "if ndim img = 2 then zeros2 (fst (shape2 img)) (snd (shape2 img))
            else zeros3 (fst (shape2 img)) (snd (shape2 img))"
  from establish_None [OF first, of img]
  have t: "trail_image (establish self img) = Some ?z"
    and c: "\<exists>c. pixels_cutoff (establish self img) = Some c" by blast+
  have sh: "shape ?z = shape img" by (rule shape_zeros)
  consider "overbright self img" | "saturated self img" | "accepted self img"
    using c exclusive_paths [of self img] by auto
  then show "\<exists>self' t. processImage self img = Inr self' \<and> trail_image self' = Some t
    \<and> shape t = shape img"
  proof cases
    case 1
    then show ?thesis using t sh by (simp add: processImage_overbright)
  next
    case 2
    then show ?thesis using t sh by (simp add: processImage_saturated)
  next
    case 3
    then show ?thesis using t sh
      by (simp add: processImage_accepted [OF 3 t] put_stars_shape)
  qed
next
  fix t c
  assume a: "trail_image self = Some t \<and> pixels_cutoff self = Some c"
  have c: "pixels_cutoff (establish self img) = Some c" using a by simp
  have t: "trail_image (establish self img) = Some t" using a by simp
  consider "overbright self img" | "saturated self img" | "accepted self img"
    using c exclusive_paths [of self img] by auto
  then show "if shape img \<noteq> shape t \<and> \<not> overbright self img \<and> \<not> saturated self img
         then \<exists>self'. processImage self img = Inl (CvError, self')
         else \<exists>self'. processImage self img = Inr self'"
  proof cases
    case 1
    then show ?thesis by (simp add: processImage_overbright)
  next
    case 2
    then show ?thesis by (simp add: processImage_saturated)
  next
    case 3
    then have "\<not> overbright self img \<and> \<not> saturated self img"
      using exclusive_paths [OF c] by simp
    then show ?thesis
      by (simp add: processImage_accepted [OF 3 t] put_stars_shape)
  qed
qed

text \<open>
  The first call on a three-channel frame; then, on the generator established by the
  one-channel 2 by 2 frame, the three-channel frame and the 2 by 4 frame of brightness 20
  raise, and the frame itself returns, as does the overbright 2 by 4 frame. So does the
  7 by 13 frame of 50s: its mean is rounded above 50.
\<close>

theorem processImage_raises_iff_witness:
  "wf_image color_frame \<and> wf_image wide_frame \<and> wf_image dim_frame \<and> wf_image bright_frame
   \<and> (\<exists>self' t. processImage new_generator color_frame = Inr self'
         \<and> trail_image self' = Some t \<and> shape t = shape color_frame)
   \<and> (\<exists>self'. processImage established color_frame = Inl (CvError, self'))
   \<and> (\<exists>self'. processImage established wide_frame = Inl (CvError, self'))
   \<and> (\<exists>self'. processImage established dim_frame = Inr self')
   \<and> (\<exists>self'. processImage established bright_frame = Inr self')
   \<and> (\<exists>self'. processImage established fifties_frame = Inr self')"
proof -
  have w: "wf_image color_frame" "wf_image wide_frame" "wf_image dim_frame" "wf_image bright_frame"
    by (simp_all add: wf_array_def color_frame_def wide_frame_def dim_frame_def bright_frame_def)
  have s: "trail_image new_generator = None"
    "trail_image established = Some (Gray (NdArray 2 2 [0, 0, 0, 0]))"
    "pixels_cutoff established = Some (default_cutoff 4)"
    by (simp_all add: new_generator_def established_def)
  have sh: "shape color_frame \<noteq> shape (Gray (NdArray 2 2 [0, 0, 0, 0]))"
    "shape wide_frame \<noteq> shape (Gray (NdArray 2 2 [0, 0, 0, 0]))"
    "shape dim_frame = shape (Gray (NdArray 2 2 [0, 0, 0, 0]))"
    by (simp_all add: shape_def color_frame_def wide_frame_def dim_frame_def)
  have g: "gray_view color_frame = gray_view dim_frame"
    by (simp add: color_frame_def dim_frame_def bgr2gray_def)
  have d: "\<not> overbright established dim_frame" "\<not> saturated established dim_frame"
    by code_simp+
  have p: "\<not> overbright established color_frame" "\<not> saturated established color_frame"
    using d by (simp_all add: overbright_def saturated_def g s)
  have q: "\<not> overbright established wide_frame" "\<not> saturated established wide_frame"
    "overbright established bright_frame"
    by code_simp+
  note est = conjI [OF s(2) s(3)]
  have "\<exists>self' t. processImage new_generator color_frame = Inr self'
         \<and> trail_image self' = Some t \<and> shape t = shape color_frame"
    using processImage_raises_iff [OF w(1), of new_generator] by (simp add: s)
  moreover have "\<exists>self'. processImage established color_frame = Inl (CvError, self')"
    using processImage_raises_iff [OF w(1), THEN conjunct2, rule_format, OF est]
    by (simp add: sh p)
  moreover have "\<exists>self'. processImage established wide_frame = Inl (CvError, self')"
    using processImage_raises_iff [OF w(2), THEN conjunct2, rule_format, OF est]
    by (simp add: sh q)
  moreover have "\<exists>self'. processImage established dim_frame = Inr self'"
    using processImage_raises_iff [OF w(3), THEN conjunct2, rule_format, OF est]
    by (simp add: sh)
  moreover have "\<exists>self'. processImage established bright_frame = Inr self'"
    using processImage_raises_iff [OF w(4), THEN conjunct2, rule_format, OF est]
    by (simp add: q)
  moreover have "\<exists>self'. processImage established fifties_frame = Inr self'"
  proof -
    have f: "wf_image fifties_frame"
      by (simp add: wf_array_def fifties_frame_def)
    have "overbright established fifties_frame"
      by code_simp
    then show ?thesis
      using processImage_raises_iff [OF f, THEN conjunct2, rule_format, OF est]
      by simp
  qed
  ultimately show ?thesis
    using w by simp
qed

text \<open>
  Against the claim as stated: after the 2 by 2 frame has established the shape, the
  2 by 4 frame of brightness 200 is skipped as overbright. The call returns, and the
  generator is as before.
\<close>

theorem mismatched_overbright_frame_returns:
  "processImage new_generator dim_frame = Inr established
   \<and> trail_image established = Some (Gray (NdArray 2 2 [0, 0, 0, 0]))
   \<and> shape bright_frame \<noteq> shape (Gray (NdArray 2 2 [0, 0, 0, 0]))
   \<and> processImage established bright_frame = Inr established"
proof -
  have "processImage new_generator dim_frame = Inr established"
    by code_simp
  moreover have "processImage established bright_frame = Inr established"
    by code_simp
  ultimately show ?thesis
    by (simp add: established_def shape_def bright_frame_def)
qed

section \<open>Generators reached by a run\<close>

text \<open>
  \<open>consistent\<close> holds of a new generator and is kept by every call of \<open>processImage\<close>
  that returns, on a well-formed frame; so it holds of every generator \<open>feed\<close> reaches.
\<close>
lemma length_select_list [simp]:
  "length (select_list thresh bs ss gs) = min (length bs) (min (length ss) (length gs))"
  by (simp add: select_list_def)

lemma length_gray_view [simp]: "length (buf (gray_view img)) = (case img of Gray a \<Rightarrow> length (buf a) | Color a \<Rightarrow> length (buf a))"
  by (cases img) simp_all

lemma wf_select_image:
  "wf_image background \<Longrightarrow> wf_image stars \<Longrightarrow> shape stars = shape background \<Longrightarrow>
     wf_image (select_image thresh background stars (gray_view stars))"
  by (cases background; cases stars) (auto simp: wf_array_def shape_def)

lemma wf_zeros:
  "wf_image img \<Longrightarrow>
   wf_image (if ndim img = 2 then zeros2 (fst (shape2 img)) (snd (shape2 img))
          else zeros3 (fst (shape2 img)) (snd (shape2 img)))"
  by (cases img) (auto simp: wf_array_def zeros2_def zeros3_def)

lemma consistent_establish:
  assumes "consistent self" and "wf_image img"
  shows "consistent (establish self img)"
proof (cases "trail_image self")
  case None
  then show ?thesis
    using assms establish_None [OF None, of img] wf_zeros [of img]
    by (simp add: consistent_def)
next
  case (Some t)
  then show ?thesis using assms by simp
qed

lemma consistent_excluded:
  "consistent self \<Longrightarrow> consistent (self\<lparr> excluded_images := n \<rparr>)"
  by (simp add: consistent_def split: option.splits)

lemma consistent_processImage:
  assumes c: "consistent self" and wf: "wf_image img" and r: "processImage self img = Inr self'"
  shows "consistent self'"
proof -
  have ce: "consistent (establish self img)" by (rule consistent_establish [OF c wf])
  obtain old where old: "trail_image (establish self img) = Some old"
    using establish_None [of self img] by (cases "trail_image self") auto
  with ce obtain k where k: "pixels_cutoff (establish self img) = Some k"
    and wfo: "wf_image old"
    by (auto simp: consistent_def)
  consider "overbright self img" | "saturated self img" | "accepted self img"
    using k exclusive_paths [of self img] by auto
  then show ?thesis
  proof cases
    case 1
    then show ?thesis using r ce by (simp add: processImage_overbright)
  next
    case 2
    then show ?thesis using r consistent_excluded [OF ce] by (auto simp add: processImage_saturated)
  next
    case 3
    from r have sh: "shape img = shape old"
      and s': "self' = (accept (establish self img) img)\<lparr> trail_image :=
           Some (select_image (mask_threshold self) old img (gray_view img)) \<rparr>"
      by (auto simp: processImage_accepted [OF 3 old] put_stars_shape split: if_splits)
    show ?thesis
      using ce old wfo wf sh wf_select_image [OF wfo wf sh, of "mask_threshold self"]
      by (auto simp: s' consistent_def accept_def split: option.splits)
  qed
qed

lemma consistent_feed:
  "consistent self \<Longrightarrow> list_all wf_image imgs \<Longrightarrow> feed self imgs = Inr self' \<Longrightarrow> consistent self'"
proof (induction imgs arbitrary: self)
  case Nil
  then show ?case by simp
next
  case (Cons img imgs)
  then show ?case
    by (auto split: sum.splits dest: consistent_processImage)
qed

lemma consistent_new: "trail_image self = None \<Longrightarrow> background_image self = None \<Longrightarrow> consistent self"
  by (simp add: consistent_def)

section \<open>The guards of finalize\<close>

text \<open>
  C2. The specification says that \<open>finalize\<close> fails with \<open>InsufficientData\<close> when there is
  no background candidate, whatever the count; otherwise fails with it when fewer than 20
  frames were accepted; and succeeds, for every state, with a background candidate and 20
  accepted frames.

  The two guards are as it says (20 is the source's literal; 19 fails). Past them,
  \<open>finalize\<close> succeeds and returns the composite of the background image and the trail
  image in every generator that a run of returning calls reaches (\<open>consistent\<close>, which
  \<open>consistent_feed\<close> shows of them), for 20 accepted frames or more. In general it succeeds
  exactly when the background image has the shape of the trail image, and raises OpenCV's
  error otherwise: the generator that a raising \<open>processImage\<close> leaves behind may hold a
  background image of another shape.
\<close>

theorem finalize_guards:
  "(background_image self = None \<longrightarrow>
      finalize self = Inl (InsufficentData ''Background image not detected''))
   \<and> (background_image self \<noteq> None \<and> trail_count self < 20 \<longrightarrow>
      finalize self = Inl (InsufficentData ''Not enough images found to build star trail''))
   \<and> (\<forall>background. background_image self = Some background \<and> 20 \<le> trail_count self
         \<and> consistent self \<longrightarrow>
      (\<exists>trail. trail_image self = Some trail
         \<and> finalize self = Inr (select_image 10 background trail (gray_view trail))))
   \<and> (\<forall>background trail. background_image self = Some background
         \<and> trail_image self = Some trail \<and> wf_image trail \<and> 20 \<le> trail_count self \<longrightarrow>
      finalize self =
        (if shape trail = shape background
         then Inr (select_image 10 background trail (gray_view trail)) else Inl CvError))"
  by (auto simp: finalize_def consistent_def put_stars_shape split: option.splits)

text \<open>
  No background image; a background image and 1, then 19 accepted frames; the generator
  reached by twenty frames of brightness 20, on which \<open>finalize\<close> succeeds; and the
  generator with a 2 by 4 background image over a 2 by 2 trail image, on which it raises.
\<close>

theorem finalize_guards_witness:
  "finalize new_generator = Inl (InsufficentData ''Background image not detected'')
   \<and> finalize established = Inl (InsufficentData ''Not enough images found to build star trail'')
   \<and> finalize (established\<lparr> trail_count := 19 \<rparr>)
       = Inl (InsufficentData ''Not enough images found to build star trail'')
   \<and> feed new_generator (replicate 20 dim_frame) = Inr (established\<lparr> trail_count := 20 \<rparr>)
   \<and> finalize (established\<lparr> trail_count := 20 \<rparr>) = Inr dim_frame
   \<and> finalize after_raise_and_more = Inl CvError"
proof -
  have r: "feed new_generator (replicate 20 dim_frame)
             = Inr (established\<lparr> trail_count := 20 \<rparr>)"
    by code_simp
  have n: "consistent new_generator"
    by (simp add: consistent_def new_generator_def)
  have c: "consistent (established\<lparr> trail_count := 20 \<rparr>)"
    by (rule consistent_feed [OF n _ r]) (simp add: wf_array_def list_all_iff dim_frame_def)
  have a: "background_image after_raise_and_more = Some dimmer_frame
     \<and> trail_image after_raise_and_more = Some (Gray (NdArray 2 2 [0, 0, 0, 0]))
     \<and> wf_image (Gray (NdArray 2 2 [0, 0, 0, 0])) \<and> 20 \<le> trail_count after_raise_and_more"
    by (simp add: after_raise_and_more_def after_raise_def established_def wf_array_def)
  have d: "shape (Gray (NdArray 2 2 [0, 0, 0, 0])) \<noteq> shape dimmer_frame"
    by (simp add: shape_def dimmer_frame_def)
  have "finalize after_raise_and_more = Inl CvError"
    using finalize_guards [of after_raise_and_more, THEN conjunct2, THEN conjunct2,
        THEN conjunct2, rule_format, OF a] d
    by simp
  then show ?thesis
    using finalize_guards [of new_generator] finalize_guards [of established]
      finalize_guards [of "established\<lparr> trail_count := 19 \<rparr>"]
      finalize_guards [of "established\<lparr> trail_count := 20 \<rparr>"] c r
    by (simp add: established_def new_generator_def select_list_def dim_frame_def)
qed

text \<open>
  Against the claim as stated: on the established generator \<open>processImage\<close> raises on the
  2 by 4 frame of brightness 15, after it has counted the frame and taken it as the
  background image. A caller that skips this frame and feeds 18 more frames reaches a
  generator with a background image and 20 accepted frames on which \<open>finalize\<close> raises
  OpenCV's error.
\<close>

theorem finalize_after_raise_fails:
  "processImage established dimmer_frame = Inl (CvError, after_raise)
   \<and> feed after_raise (replicate 18 dim_frame) = Inr after_raise_and_more
   \<and> background_image after_raise_and_more = Some dimmer_frame
   \<and> trail_count after_raise_and_more = 20
   \<and> finalize after_raise_and_more = Inl CvError"
proof -
  have "processImage established dimmer_frame = Inl (CvError, after_raise)"
    by code_simp
  moreover have "feed after_raise (replicate 18 dim_frame) = Inr after_raise_and_more"
    by code_simp
  moreover have "finalize after_raise_and_more = Inl CvError"
    by code_simp
  ultimately show ?thesis
    by (simp add: after_raise_and_more_def after_raise_def)
qed

section \<open>Pixels of the composite\<close>

lemma nth_select_list:
  "i < length bs \<Longrightarrow> i < length ss \<Longrightarrow> i < length gs \<Longrightarrow>
     select_list thresh bs ss gs ! i = (if thresh < uint (gs ! i) then ss ! i else bs ! i)"
  by (simp add: select_list_def)

lemma npixels_shape: "shape a = shape b \<Longrightarrow> npixels a = npixels b"
  by (simp add: shape_def npixels_def)

lemma samples_select_image:
  assumes "wf_image background" and "wf_image stars" and "shape stars = shape background"
    and "i < npixels background"
  shows "samples (select_image thresh background stars (gray_view stars)) i
           = (if is_star stars thresh i then samples stars i else samples background i)"
  using assms
  by (cases background; cases stars)
     (auto simp: wf_array_def shape_def npixels_def is_star_def nth_select_list)

lemma length_samples: "length (samples img i) = (if ndim img = 2 then 1 else 3)"
  by (cases img) (auto split: prod.splits)

lemma ndim_shape: "shape a = shape b \<Longrightarrow> ndim a = ndim b"
  by (simp add: shape_def)

lemma map2_add_u8_zeros_left:
  "length p = length q \<Longrightarrow> map2 add_u8 (map (\<lambda>_. 0) p) q = q"
  by (induction p q rule: list_induct2) (simp_all add: add_u8_0_left)

lemma map2_add_u8_zeros_right:
  "length p = length q \<Longrightarrow> map2 add_u8 p (map (\<lambda>_. 0) q) = p"
  by (induction p q rule: list_induct2) (simp_all add: add_u8_0_right)

lemma masked_sum_is_selection:
  assumes "shape a = shape b"
  shows "map2 add_u8 (masked_by (\<not> m) (samples a i)) (masked_by m (samples b j))
           = (if m then samples b j else samples a i)"
proof -
  have "length (samples a i) = length (samples b j)"
    using ndim_shape [OF assms] by (simp add: length_samples)
  then show ?thesis
    by (simp add: masked_by_def map2_add_u8_zeros_left map2_add_u8_zeros_right)
qed

text \<open>The example runs.\<close>

lemmas example_defs = lenient_def frame_a_def frame_b_def after_a_def after_a_b_def

lemma run_a: "processImage lenient frame_a = Inr after_a"
  by code_simp

lemma run_a_b: "processImage after_a frame_b = Inr after_a_b"
  by code_simp

section \<open>The per-frame compositing update\<close>

text \<open>
  C3. For every accepted frame (on which the call returns), with \<open>M\<close> the mask of the
  pixels whose gray sample is strictly above \<open>mask_threshold\<close> and \<open>M'\<close> its complement,
  the new trail image has the shape of the old one and each of its pixels is the old
  pixel masked by \<open>M'\<close> plus the frame's pixel masked by \<open>M\<close>, added per channel with
  saturation. The old trail image is the one in force during the call: the black image
  of the first call, the stored one later.
\<close>

theorem trail_update_is_masked_sum:
  assumes "accepted self img" and "trail_image (establish self img) = Some old"
    and "wf_image old" and "wf_image img" and "processImage self img = Inr self'"
  shows "\<exists>new. trail_image self' = Some new \<and> shape new = shape old \<and> wf_image new \<and>
     (\<forall>i<npixels old.
        samples new i =
          map2 add_u8 (masked_by (\<not> is_star img (mask_threshold self) i) (samples old i))
                      (masked_by (is_star img (mask_threshold self) i) (samples img i)))"
proof -
  let ?new = "select_image (mask_threshold self) old img (gray_view img)"
  from assms(5) have sh: "shape img = shape old"
    and s': "self' = (accept (establish self img) img)\<lparr> trail_image := Some ?new \<rparr>"
    by (auto simp: processImage_accepted [OF assms(1,2)] put_stars_shape split: if_splits)
  have "samples ?new i =
          map2 add_u8 (masked_by (\<not> is_star img (mask_threshold self) i) (samples old i))
                      (masked_by (is_star img (mask_threshold self) i) (samples img i))"
    if "i < npixels old" for i
    using samples_select_image [OF assms(3,4) sh that, of "mask_threshold self"]
      masked_sum_is_selection [OF sh [symmetric], of "is_star img (mask_threshold self) i" i i]
    by simp
  then show ?thesis
    using wf_select_image [OF assms(3,4) sh] by (simp add: s')
qed

text \<open>
  The second example frame on the generator after the first: pixel 0 keeps the old star,
  pixel 2 takes the new one.
\<close>

theorem trail_update_is_masked_sum_witness:
  "processImage after_a frame_b = Inr after_a_b \<and> accepted after_a frame_b
   \<and> (\<exists>new. trail_image after_a_b = Some new
         \<and> shape new = shape (Gray (NdArray 1 8 [200, 0, 0, 0, 0, 0, 0, 0])) \<and> wf_image new
         \<and> samples new 0 = map2 add_u8 (masked_by True [200]) (masked_by False [0])
         \<and> samples new 2 = map2 add_u8 (masked_by False [0]) (masked_by True [255]))"
proof -
  have a: "accepted after_a frame_b"
    by code_simp
  have t: "trail_image (establish after_a frame_b) = Some (Gray (NdArray 1 8 [200, 0, 0, 0, 0, 0, 0, 0]))"
    by code_simp
  have w: "wf_image (Gray (NdArray 1 8 [200, 0, 0, 0, 0, 0, 0, 0]))" "wf_image frame_b"
    by (simp_all add: wf_array_def example_defs)
  have n: "npixels (Gray (NdArray 1 8 [200, 0, 0, 0, 0, 0, 0, 0])) = 8"
    by (simp add: npixels_def)
  have s: "\<not> is_star frame_b 190 0" "is_star frame_b 190 2"
    by (simp_all add: is_star_def example_defs)
  from trail_update_is_masked_sum [OF a t w run_a_b]
  obtain new where new: "trail_image after_a_b = Some new"
    "shape new = shape (Gray (NdArray 1 8 [200, 0, 0, 0, 0, 0, 0, 0]))" "wf_image new"
   and px: "\<And>i. i < 8 \<Longrightarrow> samples new i =
          map2 add_u8 (masked_by (\<not> is_star frame_b (mask_threshold after_a) i)
                         (samples (Gray (NdArray 1 8 [200, 0, 0, 0, 0, 0, 0, 0])) i))
                      (masked_by (is_star frame_b (mask_threshold after_a) i) (samples frame_b i))"
    unfolding n by blast
  have m: "mask_threshold after_a = 190"
    by (simp add: example_defs new_generator_def)
  show ?thesis
    using a run_a_b new px [of 0] px [of 2] s
    by (simp add: m) (simp add: example_defs)
qed

section \<open>The masked operands\<close>

lemma bitwise_and_self:
  assumes "wf_image img" and "height m = fst (shape2 img)" and "width m = snd (shape2 img)"
    and "length (buf m) = npixels img"
  shows "\<exists>r. bitwise_and img img m = Inr r \<and> shape r = shape img \<and> wf_image r \<and>
     (\<forall>i<npixels img. samples r i = masked_by (buf m ! i \<noteq> 0) (samples img i))"
  using assms
  by (cases img)
     (auto simp: and_masked_same shape_def wf_array_def npixels_def masked_by_def and_bgr_same
       split: prod.splits)

lemma cv_add_samples:
  assumes "wf_image a" and "wf_image b" and "shape a = shape b"
  shows "\<exists>r. cv_add a b = Inr r \<and> shape r = shape a \<and> wf_image r \<and>
     (\<forall>i<npixels a. samples r i = map2 add_u8 (samples a i) (samples b i))"
  using assms
  by (cases a; cases b)
     (auto simp: add_arrays_def shape_def wf_array_def npixels_def add_bgr_def split: prod.splits)

lemma mask_facts:
  "height (threshold_binary g thresh v) = height g"
  "width (threshold_binary g thresh v) = width g"
  "length (buf (threshold_binary g thresh v)) = length (buf g)"
  "height (bitwise_not m) = height m"
  "width (bitwise_not m) = width m"
  "length (buf (bitwise_not m)) = length (buf m)"
  by (simp_all add: threshold_binary_def bitwise_not_def)

lemma mask_nth:
  "i < length (buf g) \<Longrightarrow> (buf (threshold_binary g thresh 255) ! i \<noteq> 0) = (thresh < uint (buf g ! i))"
  "i < length (buf g) \<Longrightarrow>
     (buf (bitwise_not (threshold_binary g thresh 255)) ! i \<noteq> 0) = (\<not> thresh < uint (buf g ! i))"
  by (simp_all add: threshold_binary_def bitwise_not_def)

lemma length_gray_view_wf: "wf_image img \<Longrightarrow> length (buf (gray_view img)) = npixels img"
  by (cases img) (simp_all add: wf_array_def npixels_def)

lemma masked_by_zero:
  "set (masked_by False p) \<subseteq> {0}"
  by (auto simp: masked_by_def)

lemma list_all2_zeros_left:
  "length p = length q \<Longrightarrow> list_all2 (\<lambda>x y. unat x + unat y \<le> 255) (map (\<lambda>_. 0) p) (q :: u8 list)"
  by (induction p q rule: list_induct2) (simp_all add: unat_u8_le)

lemma list_all2_zeros_right:
  "length p = length q \<Longrightarrow> list_all2 (\<lambda>x y. unat x + unat y \<le> 255) (p :: u8 list) (map (\<lambda>_. 0) q)"
  by (induction p q rule: list_induct2) (simp_all add: unat_u8_le)

lemma no_saturation:
  assumes "shape a = shape b"
  shows "list_all2 (\<lambda>x y. unat x + unat y \<le> 255)
           (masked_by (\<not> m) (samples a i)) (masked_by m (samples b j))"
proof -
  have "length (samples a i) = length (samples b j)"
    using ndim_shape [OF assms] by (simp add: length_samples)
  then show ?thesis
    by (simp add: masked_by_def list_all2_zeros_left list_all2_zeros_right)
qed

lemma run_twenty: "feed lenient (frame_a # replicate 19 frame_b) = Inr after_twenty"
  by code_simp

lemma consistent_after_twenty: "consistent after_twenty"
proof -
  have "consistent lenient" by (simp add: consistent_def lenient_def new_generator_def)
  then show ?thesis
    by (rule consistent_feed [OF _ _ run_twenty]) (simp add: list_all_iff wf_array_def example_defs)
qed

section \<open>Compositing is a selection\<close>

text \<open>
  C10. In the compositing block, which ends both \<open>processImage\<close> (lines 137 to 148) and
  \<open>finalize\<close> (lines 172 to 183), the two masked operands of the saturating addition have
  disjoint support: at each pixel one of them is black. So no channel sum exceeds 255,
  and the result at each pixel is the star source's pixel where the mask is set and the
  background source's pixel elsewhere. The last two parts say that this block, on these
  arguments, is what an accepted frame does to the trail image and what \<open>finalize\<close>
  returns.
\<close>

theorem compositing_is_selection:
  assumes wb: "wf_image background" and ws: "wf_image stars"
    and sh: "shape stars = shape background"
  shows "\<exists>bg_masked stars_masked out.
      bitwise_and background background
         (bitwise_not (threshold_binary (gray_view stars) thresh 255)) = Inr bg_masked
    \<and> bitwise_and stars stars (threshold_binary (gray_view stars) thresh 255) = Inr stars_masked
    \<and> cv_add bg_masked stars_masked = Inr out
    \<and> put_stars_on_background background stars (gray_view stars) thresh = Inr out
    \<and> (\<forall>i<npixels background.
          (set (samples bg_masked i) \<subseteq> {0} \<or> set (samples stars_masked i) \<subseteq> {0})
        \<and> list_all2 (\<lambda>x y. unat x + unat y \<le> 255) (samples bg_masked i) (samples stars_masked i)
        \<and> samples out i = (if is_star stars thresh i then samples stars i else samples background i))
    \<and> (\<forall>self. accepted self stars \<and> trail_image (establish self stars) = Some background
           \<and> mask_threshold self = thresh \<longrightarrow>
         processImage self stars = Inr ((accept (establish self stars) stars)\<lparr> trail_image := Some out \<rparr>))
    \<and> (\<forall>self. background_image self = Some background \<and> trail_image self = Some stars
           \<and> 20 \<le> trail_count self \<and> thresh = 10 \<longrightarrow>
         finalize self = Inr out)"
proof -
  let ?g = "gray_view stars"
  let ?mask = "threshold_binary ?g thresh 255"
  let ?out = "select_image thresh background stars ?g"
  have n: "npixels stars = npixels background" by (rule npixels_shape [OF sh])
  have dims: "fst (shape2 stars) = fst (shape2 background)" "snd (shape2 stars) = snd (shape2 background)"
    using sh by (simp_all add: shape_def)
  have lg: "length (buf ?g) = npixels background"
    using length_gray_view_wf [OF ws] n by simp
  obtain bg_masked where bg: "bitwise_and background background (bitwise_not ?mask) = Inr bg_masked"
    "shape bg_masked = shape background" "wf_image bg_masked"
    and bgpx: "\<And>i. i < npixels background \<Longrightarrow>
       samples bg_masked i = masked_by (\<not> is_star stars thresh i) (samples background i)"
    using bitwise_and_self [OF wb, of "bitwise_not ?mask"] lg dims
    by (auto simp: mask_facts shape_gray_view mask_nth is_star_def)
  obtain stars_masked where st: "bitwise_and stars stars ?mask = Inr stars_masked"
    "shape stars_masked = shape stars" "wf_image stars_masked"
    and stpx: "\<And>i. i < npixels background \<Longrightarrow>
       samples stars_masked i = masked_by (is_star stars thresh i) (samples stars i)"
    using bitwise_and_self [OF ws, of ?mask] lg n
    by (auto simp: mask_facts shape_gray_view mask_nth is_star_def)
  have put: "put_stars_on_background background stars ?g thresh = Inr ?out"
    using sh by (simp add: put_stars_shape)
  have add: "cv_add bg_masked stars_masked = Inr ?out"
    using put bg(1) st(1) by (simp add: put_stars_on_background_def Let_def)
  have px: "(set (samples bg_masked i) \<subseteq> {0} \<or> set (samples stars_masked i) \<subseteq> {0})
        \<and> list_all2 (\<lambda>x y. unat x + unat y \<le> 255) (samples bg_masked i) (samples stars_masked i)
        \<and> samples ?out i = (if is_star stars thresh i then samples stars i else samples background i)"
    if "i < npixels background" for i
    using bgpx [OF that] stpx [OF that] samples_select_image [OF wb ws sh that, of thresh]
      no_saturation [OF sh [symmetric], of "is_star stars thresh i" i i] masked_by_zero
    by (cases "is_star stars thresh i") simp_all
  have pI: "processImage self stars = Inr ((accept (establish self stars) stars)\<lparr> trail_image := Some ?out \<rparr>)"
    if "accepted self stars \<and> trail_image (establish self stars) = Some background
           \<and> mask_threshold self = thresh" for self
    using that processImage_accepted [of self stars background] put by auto
  have fin: "finalize self = Inr ?out"
    if "background_image self = Some background \<and> trail_image self = Some stars
           \<and> 20 \<le> trail_count self \<and> thresh = 10" for self
    using that put by (auto simp: finalize_def)
  show ?thesis
    using bg(1) st(1) add put px pI fin by blast
qed

text \<open>
  The second example frame over the trail image left by the first: pixel 0 is the trail's,
  pixel 2 the frame's.
\<close>

theorem compositing_is_selection_witness:
  "\<exists>bg_masked stars_masked out.
      bitwise_and (Gray (NdArray 1 8 [200, 0, 0, 0, 0, 0, 0, 0])) (Gray (NdArray 1 8 [200, 0, 0, 0, 0, 0, 0, 0]))
         (bitwise_not (threshold_binary (gray_view frame_b) 190 255)) = Inr bg_masked
    \<and> bitwise_and frame_b frame_b (threshold_binary (gray_view frame_b) 190 255) = Inr stars_masked
    \<and> cv_add bg_masked stars_masked = Inr out
    \<and> samples out 0 = [200] \<and> samples out 2 = [255]
    \<and> processImage after_a frame_b = Inr ((accept after_a frame_b)\<lparr> trail_image := Some out \<rparr>)"
proof -
  let ?old = "Gray (NdArray 1 8 [200, 0, 0, 0, 0, 0, 0, 0])"
  have w: "wf_image ?old" "wf_image frame_b" "shape frame_b = shape ?old"
    by (simp_all add: wf_array_def shape_def example_defs)
  have a: "accepted after_a frame_b \<and> trail_image (establish after_a frame_b) = Some ?old
           \<and> mask_threshold after_a = 190"
    by code_simp
  have e: "establish after_a frame_b = after_a"
    by (simp add: example_defs)
  have s: "\<not> is_star frame_b 190 0" "is_star frame_b 190 2" "npixels ?old = 8"
    by (simp_all add: is_star_def npixels_def example_defs)
  from compositing_is_selection [OF w, of 190] a s e show ?thesis
    apply (elim exE conjE)
    subgoal for bg_masked stars_masked out
      apply (rule exI [of _ bg_masked], rule exI [of _ stars_masked], rule exI [of _ out])
      apply (simp add: example_defs)
      done
    done
qed

section \<open>The final composite\<close>

text \<open>
  C5. Where \<open>finalize\<close> succeeds, the mask \<open>M\<close> marks the pixels of the trail image whose
  gray sample is strictly above the literal 10, and each pixel of the output is the
  background image's pixel masked by the complement of \<open>M\<close> plus the trail image's pixel
  masked by \<open>M\<close>, added with saturation. The settable \<open>mask_threshold\<close> plays no part:
  changing it changes nothing in the result.
\<close>

theorem finalize_composite:
  assumes fin: "finalize self = Inr out" and c: "consistent self"
  shows "\<exists>background trail. background_image self = Some background \<and> trail_image self = Some trail
    \<and> shape out = shape background
    \<and> (\<forall>i<npixels trail.
          samples out i =
            map2 add_u8 (masked_by (\<not> is_star trail 10 i) (samples background i))
                        (masked_by (is_star trail 10 i) (samples trail i)))
    \<and> (\<forall>t. finalize (self\<lparr> mask_threshold := t \<rparr>) = Inr out)"
proof -
  from fin obtain background trail where bg: "background_image self = Some background"
    and tr: "trail_image self = Some trail"
    and put: "put_stars_on_background background trail (gray_view trail) 10 = Inr out"
    by (auto simp: finalize_def split: option.splits if_splits)
  from put have sh: "shape trail = shape background"
    and out: "out = select_image 10 background trail (gray_view trail)"
    by (auto simp: put_stars_shape split: if_splits)
  from c bg tr have wf: "wf_image background" "wf_image trail"
    by (auto simp: consistent_def)
  have "samples out i =
            map2 add_u8 (masked_by (\<not> is_star trail 10 i) (samples background i))
                        (masked_by (is_star trail 10 i) (samples trail i))"
    if "i < npixels trail" for i
    using samples_select_image [OF wf sh, of i 10] that npixels_shape [OF sh]
      masked_sum_is_selection [OF sh [symmetric], of "is_star trail 10 i" i i]
    by (simp add: out)
  moreover have "finalize (self\<lparr> mask_threshold := t \<rparr>) = finalize self" for t
    by (simp add: finalize_def split: option.splits)
  ultimately show ?thesis
    using bg tr fin by (simp add: out)
qed

text \<open>
  The generator after twenty frames: the output keeps the trail's stars at pixels 0 and 2
  and is the same with \<open>mask_threshold\<close> set to 5.
\<close>

theorem finalize_composite_witness:
  "feed lenient (frame_a # replicate 19 frame_b) = Inr after_twenty
   \<and> finalize after_twenty = Inr (Gray (NdArray 1 8 [200, 0, 255, 0, 0, 0, 0, 0]))
   \<and> finalize (after_twenty\<lparr> mask_threshold := 5 \<rparr>) = Inr (Gray (NdArray 1 8 [200, 0, 255, 0, 0, 0, 0, 0]))
   \<and> samples (Gray (NdArray 1 8 [200, 0, 255, 0, 0, 0, 0, 0])) 2
       = map2 add_u8 (masked_by False (samples frame_a 2)) (masked_by True [255])"
proof -
  have f: "finalize after_twenty = Inr (Gray (NdArray 1 8 [200, 0, 255, 0, 0, 0, 0, 0]))"
    by code_simp
  have s: "is_star (Gray (NdArray 1 8 [200, 0, 255, 0, 0, 0, 0, 0])) 10 2"
    by (simp add: is_star_def)
  have n: "npixels (Gray (NdArray 1 8 [200, 0, 255, 0, 0, 0, 0, 0])) = 8"
    by (simp add: npixels_def)
  have t: "trail_image after_twenty = Some (Gray (NdArray 1 8 [200, 0, 255, 0, 0, 0, 0, 0]))"
    "background_image after_twenty = Some frame_a"
    by (simp_all add: after_twenty_def example_defs)
  from finalize_composite [OF f consistent_after_twenty]
  have px: "\<And>i. i < 8 \<Longrightarrow> samples (Gray (NdArray 1 8 [200, 0, 255, 0, 0, 0, 0, 0])) i =
            map2 add_u8 (masked_by (\<not> is_star (Gray (NdArray 1 8 [200, 0, 255, 0, 0, 0, 0, 0])) 10 i)
                           (samples frame_a i))
                        (masked_by (is_star (Gray (NdArray 1 8 [200, 0, 255, 0, 0, 0, 0, 0])) 10 i)
                           (samples (Gray (NdArray 1 8 [200, 0, 255, 0, 0, 0, 0, 0])) i))"
    and mt: "\<And>t. finalize (after_twenty\<lparr> mask_threshold := t \<rparr>)
               = Inr (Gray (NdArray 1 8 [200, 0, 255, 0, 0, 0, 0, 0]))"
    unfolding t by (auto simp: npixels_def)
  show ?thesis
    using run_twenty f s px [of 2] mt [of 5] by simp
qed

section \<open>The background candidate\<close>

lemma establish_trail_Some: "\<exists>old. trail_image (establish self img) = Some old"
  using establish_None [of self img] by (cases "trail_image self") auto

lemma processImage_no_cutoff:
  "\<not> overbright self img \<Longrightarrow> pixels_cutoff (establish self img) = None \<Longrightarrow>
     processImage self img = Inl (TypeError, establish self img)"
  by (simp add: processImage_def overbright_def Let_def)

lemma state_after_accepted:
  assumes "accepted self img"
  shows "\<exists>r. state_after (processImage self img) = r
     \<and> (r = accept (establish self img) img
        \<or> (\<exists>new. r = (accept (establish self img) img)\<lparr> trail_image := Some new \<rparr>))"
proof -
  obtain old where "trail_image (establish self img) = Some old"
    using establish_trail_Some by blast
  then show ?thesis
    by (auto simp: processImage_accepted [OF assms] state_after_def split: sum.splits)
qed

lemma background_after_processImage:
  "background_image_brightness (state_after (processImage self img)) =
     (if accepted self img \<and> new_background self img then cv_mean (gray_view img)
      else background_image_brightness self)
   \<and> background_image (state_after (processImage self img)) =
     (if accepted self img \<and> new_background self img then Some img
      else background_image self)"
proof (cases "accepted self img")
  case True
  have nb: "new_background (establish self img) img = new_background self img"
    by (simp add: new_background_def)
  from state_after_accepted [OF True] show ?thesis
    using True nb by (auto simp: accept_def)
next
  case False
  consider "overbright self img" | "saturated self img"
    | "\<not> overbright self img" "pixels_cutoff (establish self img) = None"
    using False by (cases "pixels_cutoff (establish self img)") (auto simp: accepted_def saturated_def)
  then show ?thesis
    using False
    by cases (simp_all add: processImage_overbright processImage_saturated processImage_no_cutoff
        state_after_def)
qed

lemma state_after_feed_Cons:
  "state_after (feed self (img # imgs)) =
     (case processImage self img of
        Inl e \<Rightarrow> state_after (processImage self img)
      | Inr self' \<Rightarrow> state_after (feed self' imgs))"
  by (simp add: state_after_def split: sum.splits)

lemma brightness_after_feed:
  "background_image_brightness (state_after (feed self imgs)) \<le> background_image_brightness self"
proof (induction imgs arbitrary: self)
  case Nil
  then show ?case by (simp add: state_after_def)
next
  case (Cons img imgs)
  have step: "background_image_brightness (state_after (processImage self img))
                \<le> background_image_brightness self"
    using background_after_processImage [of self img] by (auto simp: new_background_def)
  show ?case
  proof (cases "processImage self img")
    case (Inl e)
    then show ?thesis using step by (simp add: state_after_feed_Cons)
  next
    case (Inr self')
    then have "state_after (processImage self img) = self'" by (simp add: state_after_def)
    then show ?thesis
      using step Cons.IH [of self'] Inr by (simp add: state_after_feed_Cons)
  qed
qed

text \<open>
  C4. Whether the call returns or raises, \<open>background_image_brightness\<close> does not grow.
  It changes exactly when the frame is accepted and its mean brightness lies strictly
  between \<open>background_image_min_brightness\<close> and the current value: then it becomes that
  mean and \<open>background_image\<close> becomes the frame itself, with its original channels. In
  every other call both fields stay as they are. So over any sequence of frames the value
  at the end is at most the value at the start.
\<close>

theorem background_score_non_increasing:
  "background_image_brightness (state_after (processImage self img)) \<le> background_image_brightness self
   \<and> (if accepted self img
          \<and> background_image_min_brightness self < cv_mean (gray_view img)
          \<and> cv_mean (gray_view img) < background_image_brightness self
       then background_image_brightness (state_after (processImage self img)) = cv_mean (gray_view img)
          \<and> background_image (state_after (processImage self img)) = Some img
       else background_image_brightness (state_after (processImage self img)) = background_image_brightness self
          \<and> background_image (state_after (processImage self img)) = background_image self)
   \<and> background_image_brightness (state_after (feed self imgs)) \<le> background_image_brightness self"
  using background_after_processImage [of self img] brightness_after_feed [of self imgs]
  by (auto simp: new_background_def)

text \<open>
  The first example frame (mean 25) becomes the background; the second (mean 255/8)
  leaves it. And on a new generator the frame of 105 samples of 10 becomes the background:
  its mean, as OpenCV computes it, is above 10.
\<close>

theorem background_score_non_increasing_witness:
  "background_image_brightness (state_after (processImage lenient frame_a)) = 25
   \<and> background_image (state_after (processImage lenient frame_a)) = Some frame_a
   \<and> background_image_brightness (state_after (processImage after_a frame_b)) = 25
   \<and> background_image (state_after (processImage after_a frame_b)) = Some frame_a
   \<and> background_image (state_after (processImage new_generator tens_frame)) = Some tens_frame
   \<and> 10 < background_image_brightness (state_after (processImage new_generator tens_frame))"
proof -
  have a: "accepted lenient frame_a" "accepted after_a frame_b" "accepted new_generator tens_frame"
    by code_simp+
  have m: "cv_mean (gray_view frame_a) = 25" "cv_mean (gray_view frame_b) = 255 / 8"
    "10 < cv_mean (gray_view tens_frame)" "cv_mean (gray_view tens_frame) < 255"
    by code_simp+
  have b: "background_image_min_brightness lenient = 10" "background_image_brightness lenient = 255"
    "background_image_brightness after_a = 25" "background_image after_a = Some frame_a"
    "background_image_min_brightness new_generator = 10"
    "background_image_brightness new_generator = 255"
    by (simp_all add: example_defs new_generator_def)
  show ?thesis
    using background_score_non_increasing [of lenient frame_a "[]"]
      background_score_non_increasing [of after_a frame_b "[]"]
      background_score_non_increasing [of new_generator tens_frame "[]"]
    by (simp add: a m b)
qed

section \<open>Excluded frames\<close>

lemma samples_zeros:
  "i < npixels img \<Longrightarrow>
     set (samples (if ndim img = 2 then zeros2 (fst (shape2 img)) (snd (shape2 img))
                   else zeros3 (fst (shape2 img)) (snd (shape2 img))) i) \<subseteq> {0}"
  by (cases img) (simp_all add: zeros2_def zeros3_def npixels_def)

lemma establish_first:
  assumes "trail_image self = None"
  shows "\<exists>t. trail_image (establish self img) = Some t \<and> shape t = shape img
           \<and> (\<forall>i<npixels img. set (samples t i) \<subseteq> {0})"
    and "pixels_cutoff (establish self img)
           = Some (to_double (to_double (of_nat (npixels img))
                              * to_double (pixel_cutoff_threshold self / 100)))"
  using establish_None [OF assms, of img] shape_zeros [of img] samples_zeros [of _ img]
  by (auto simp: npixels_def)

text \<open>
  C6. The specification says that an overbright frame leaves the trail buffer, the
  background candidate and both counters unchanged, on the first call of a run too.

  The test for brightness (line 116) comes after the first call has allocated the trail
  image (lines 97 to 106). So: the call returns; the background image, its brightness and
  both counters are unchanged; once a trail image exists the generator is unchanged
  altogether; on the first call the generator gains a black trail image of the frame's
  shape and the pixel cutoff of that frame.
\<close>

theorem overbright_frame_effect:
  assumes "overbright self img"
  shows "\<exists>self'. processImage self img = Inr self'
     \<and> background_image self' = background_image self
     \<and> background_image_brightness self' = background_image_brightness self
     \<and> trail_count self' = trail_count self
     \<and> excluded_images self' = excluded_images self
     \<and> (case trail_image self of
          Some trail \<Rightarrow> self' = self
        | None \<Rightarrow>
            (\<exists>t. trail_image self' = Some t \<and> shape t = shape img
               \<and> (\<forall>i<npixels img. set (samples t i) \<subseteq> {0}))
            \<and> pixels_cutoff self'
                = Some (to_double (to_double (of_nat (npixels img))
                                   * to_double (pixel_cutoff_threshold self / 100))))"
  using establish_first [of self img]
  by (auto simp: processImage_overbright [OF assms] split: option.splits)

text \<open>
  The overbright 2 by 4 frame on the established generator; and on a new generator the
  frame of 91 samples of 50, which is overbright because its mean is rounded above 50.
\<close>

theorem overbright_frame_effect_witness:
  "overbright established bright_frame
   \<and> processImage established bright_frame = Inr established
   \<and> overbright new_generator fifties_frame
   \<and> (\<exists>self'. processImage new_generator fifties_frame = Inr self'
        \<and> background_image self' = None \<and> trail_count self' = 0 \<and> excluded_images self' = 0
        \<and> pixels_cutoff self' = Some (default_cutoff 91)
        \<and> (\<exists>t. trail_image self' = Some t \<and> shape t = shape fifties_frame))"
proof -
  have o: "overbright established bright_frame" "overbright new_generator fifties_frame"
    by code_simp+
  have t: "trail_image established = Some (Gray (NdArray 2 2 [0, 0, 0, 0]))"
    "trail_image new_generator = None"
    "background_image new_generator = None" "trail_count new_generator = 0"
    "excluded_images new_generator = 0"
    "pixel_cutoff_threshold new_generator = to_double (1 / 10)"
    by (simp_all add: established_def new_generator_def)
  have n: "npixels fifties_frame = 91"
    by (simp add: npixels_def fifties_frame_def)
  show ?thesis
    using overbright_frame_effect [OF o(1)] overbright_frame_effect [OF o(2)] o
    by (auto simp: t n default_cutoff_def)
qed

text \<open>
  Against the claim as stated: on a new generator an overbright frame changes the trail
  image, from none to a black one.
\<close>

theorem overbright_first_frame_sets_trail_image:
  "overbright new_generator bright_frame
   \<and> trail_image new_generator = None
   \<and> processImage new_generator bright_frame
       = Inr (new_generator\<lparr> pixels_cutoff := Some (default_cutoff 8),
                trail_image := Some (Gray (NdArray 2 4 [0, 0, 0, 0, 0, 0, 0, 0])) \<rparr>)"
  by code_simp

text \<open>
  C7. The specification says that a frame at or below the brightness limit whose count
  of gray samples above \<open>mask_threshold\<close> exceeds the pixel cutoff adds 1 to the excluded
  count and changes nothing else.

  As for C6, the first call has allocated the trail image before the test (line 123). So:
  the call returns and the excluded count grows by exactly 1; the background image, its
  brightness and the accepted count are unchanged; once a trail image exists nothing else
  changes at all; on the first call the generator also gains a black trail image of the
  frame's shape and the pixel cutoff of that frame.
\<close>

theorem saturated_frame_effect:
  assumes "saturated self img"
  shows "\<exists>self'. processImage self img = Inr self'
     \<and> excluded_images self' = excluded_images self + 1
     \<and> background_image self' = background_image self
     \<and> background_image_brightness self' = background_image_brightness self
     \<and> trail_count self' = trail_count self
     \<and> (case trail_image self of
          Some trail \<Rightarrow> self' = self\<lparr> excluded_images := excluded_images self + 1 \<rparr>
        | None \<Rightarrow>
            (\<exists>t. trail_image self' = Some t \<and> shape t = shape img
               \<and> (\<forall>i<npixels img. set (samples t i) \<subseteq> {0}))
            \<and> pixels_cutoff self'
                = Some (to_double (to_double (of_nat (npixels img))
                                   * to_double (pixel_cutoff_threshold self / 100))))"
  using establish_first [of self img]
  by (auto simp: processImage_saturated [OF assms] split: option.splits)

text \<open>
  An eight-pixel frame with one star under the default cutoff of 0.1 percent, on the
  established generator and on a new one.
\<close>

theorem saturated_frame_effect_witness:
  "saturated established frame_b
   \<and> processImage established frame_b = Inr (established\<lparr> excluded_images := 1 \<rparr>)
   \<and> saturated new_generator frame_b
   \<and> (\<exists>self'. processImage new_generator frame_b = Inr self'
        \<and> excluded_images self' = 1
        \<and> background_image self' = None \<and> trail_count self' = 0
        \<and> pixels_cutoff self' = Some (default_cutoff 8)
        \<and> (\<exists>t. trail_image self' = Some t \<and> shape t = shape frame_b))"
proof -
  have o: "saturated established frame_b" "saturated new_generator frame_b"
    by code_simp+
  have t: "trail_image established = Some (Gray (NdArray 2 2 [0, 0, 0, 0]))"
    "trail_image new_generator = None"
    "background_image new_generator = None" "trail_count new_generator = 0"
    "excluded_images new_generator = 0" "excluded_images established = 0"
    "pixel_cutoff_threshold new_generator = to_double (1 / 10)"
    by (simp_all add: established_def new_generator_def)
  have n: "npixels frame_b = 8"
    by (simp add: npixels_def frame_b_def)
  show ?thesis
    using saturated_frame_effect [OF o(1)] saturated_frame_effect [OF o(2)] o
    by (auto simp: t n default_cutoff_def)
qed

text \<open>
  Against the claim as stated: on a new generator a saturated frame changes the trail
  image as well, from none to a black one.
\<close>

theorem saturated_first_frame_sets_trail_image:
  "saturated new_generator frame_b
   \<and> trail_image new_generator = None
   \<and> processImage new_generator frame_b
       = Inr (new_generator\<lparr> excluded_images := 1, pixels_cutoff := Some (default_cutoff 8),
                trail_image := Some (Gray (NdArray 1 8 [0, 0, 0, 0, 0, 0, 0, 0])) \<rparr>)"
  by code_simp

section \<open>The order of two frames\<close>

lemma select_list_commute:
  assumes "length as = length os" and "length bs = length os"
    and "length ga = length os" and "length gb = length os"
    and "\<And>i. i < length os \<Longrightarrow> \<not> (thresh < uint (ga ! i) \<and> thresh < uint (gb ! i))"
  shows "select_list thresh (select_list thresh os as ga) bs gb
           = select_list thresh (select_list thresh os bs gb) as ga"
proof (rule nth_equalityI)
  show "length (select_list thresh (select_list thresh os as ga) bs gb)
          = length (select_list thresh (select_list thresh os bs gb) as ga)"
    using assms(1-4) by simp
next
  fix i
  assume "i < length (select_list thresh (select_list thresh os as ga) bs gb)"
  then have i: "i < length os" using assms(1-4) by simp
  show "select_list thresh (select_list thresh os as ga) bs gb ! i
          = select_list thresh (select_list thresh os bs gb) as ga ! i"
    using i assms(1-4) assms(5) [OF i] by (simp add: nth_select_list)
qed

lemma select_image_commute:
  assumes wo: "wf_image old" and wa: "wf_image a" and wb: "wf_image b"
    and sa: "shape a = shape old" and sb: "shape b = shape old"
    and dis: "\<And>i. i < npixels old \<Longrightarrow> \<not> (is_star a thresh i \<and> is_star b thresh i)"
  shows "select_image thresh (select_image thresh old a (gray_view a)) b (gray_view b)
           = select_image thresh (select_image thresh old b (gray_view b)) a (gray_view a)"
proof (cases old)
  case (Gray x)
  with sa sb obtain y z where [simp]: "a = Gray y" "b = Gray z"
    by (cases a; cases b) (auto simp: shape_def)
  show ?thesis
    using assms Gray
    by (auto simp: wf_array_def shape_def npixels_def is_star_def intro!: select_list_commute)
next
  case (Color x)
  with sa sb obtain y z where [simp]: "a = Color y" "b = Color z"
    by (cases a; cases b) (auto simp: shape_def)
  show ?thesis
    using assms Color
    by (auto simp: wf_array_def shape_def npixels_def is_star_def intro!: select_list_commute)
qed

lemma accept_fields [simp]:
  "max_brightness (accept self img) = max_brightness self"
  "mask_threshold (accept self img) = mask_threshold self"
  "pixels_cutoff (accept self img) = pixels_cutoff self"
  "trail_image (accept self img) = trail_image self"
  "excluded_images (accept self img) = excluded_images self"
  "trail_count (accept self img) = trail_count self + 1"
  by (simp_all add: accept_def)

lemma processImage_accepted_Inr:
  assumes "accepted self img" and "trail_image (establish self img) = Some old"
    and "shape img = shape old"
  shows "processImage self img =
     Inr ((accept (establish self img) img)\<lparr> trail_image :=
            Some (select_image (mask_threshold self) old img (gray_view img)) \<rparr>)"
  using assms(3) by (simp add: processImage_accepted [OF assms(1,2)] put_stars_shape)

lemma processImage_accepted_returned:
  assumes "accepted self img" and "trail_image (establish self img) = Some old"
    and "processImage self img = Inr self'"
  shows "shape img = shape old"
    and "self' = (accept (establish self img) img)\<lparr> trail_image :=
            Some (select_image (mask_threshold self) old img (gray_view img)) \<rparr>"
  using assms(3)
  by (auto simp: processImage_accepted [OF assms(1,2)] put_stars_shape split: if_splits)

lemma establish_same_shape:
  assumes "shape a = shape b"
  shows "trail_image (establish self b) = trail_image (establish self a)"
    and "pixels_cutoff (establish self b) = pixels_cutoff (establish self a)"
proof -
  have "shape2 a = shape2 b" "ndim a = ndim b"
    using assms by (simp_all add: shape_def prod_eq_iff)
  then show "trail_image (establish self b) = trail_image (establish self a)"
    and "pixels_cutoff (establish self b) = pixels_cutoff (establish self a)"
    by (simp_all add: establish_def split: option.splits)
qed

lemma accepted_cong:
  assumes "max_brightness s = max_brightness t" and "mask_threshold s = mask_threshold t"
    and "pixels_cutoff (establish s img) = pixels_cutoff (establish t img)"
  shows "accepted s img = accepted t img"
  using assms by (simp add: accepted_def overbright_def split: option.splits)

lemma run_a_c: "processImage after_a frame_c = Inr after_a_c"
  by code_simp

lemma consistent_lenient: "consistent lenient"
  by (simp add: consistent_def lenient_def new_generator_def)

text \<open>
  C8. Let two frames be accepted one after the other, from a generator a run reaches. They
  have the same shape. Wherever the second frame has a star (a gray sample strictly above
  \<open>mask_threshold\<close>), the trail image ends with the second frame's pixel: where stars
  overlap, the frame fed later wins. And if no pixel is a star in both frames, feeding
  them in the other order is accepted as well and ends with the same trail image.
\<close>

theorem order_of_disjoint_frames:
  assumes c: "consistent self" and wa: "wf_image a" and wb: "wf_image b"
    and ra: "processImage self a = Inr s1" and aa: "accepted self a"
    and rb: "processImage s1 b = Inr s2" and ab: "accepted s1 b"
  shows "shape a = shape b
     \<and> (\<exists>new. trail_image s2 = Some new
          \<and> (\<forall>i<npixels b. is_star b (mask_threshold self) i \<longrightarrow> samples new i = samples b i))
     \<and> ((\<forall>i<npixels a. \<not> (is_star a (mask_threshold self) i \<and> is_star b (mask_threshold self) i)) \<longrightarrow>
          (\<exists>t1 t2. processImage self b = Inr t1 \<and> accepted self b
             \<and> processImage t1 a = Inr t2 \<and> accepted t1 a
             \<and> trail_image t2 = trail_image s2))"
proof -
  let ?thr = "mask_threshold self"
  obtain old where old: "trail_image (establish self a) = Some old"
    using establish_trail_Some by blast
  have wo: "wf_image old"
    using consistent_establish [OF c wa] old by (simp add: consistent_def)
  let ?n1 = "select_image ?thr old a (gray_view a)"
  note A = processImage_accepted_returned [OF aa old ra]
  have sa: "shape a = shape old" by (rule A(1))
  have t1: "trail_image s1 = Some ?n1" by (simp add: A(2))
  have e1: "establish s1 b = s1" using t1 by simp
  have m1: "mask_threshold s1 = ?thr" "max_brightness s1 = max_brightness self"
    "pixels_cutoff s1 = pixels_cutoff (establish self a)"
    by (simp_all add: A(2))
  have t1': "trail_image (establish s1 b) = Some ?n1" using t1 e1 by simp
  note B = processImage_accepted_returned [OF ab t1' rb]
  have sb: "shape b = shape old" using B(1) by simp
  have wn1: "wf_image ?n1" by (rule wf_select_image [OF wo wa sa])
  let ?new = "select_image ?thr ?n1 b (gray_view b)"
  have t2: "trail_image s2 = Some ?new" by (simp add: B(2) m1)
  have later: "samples ?new i = samples b i" if "i < npixels b" "is_star b ?thr i" for i
    using samples_select_image [OF wn1 wb, of i ?thr] that B(1) npixels_shape [OF B(1)] by simp
  have part2: "\<exists>t1 t2. processImage self b = Inr t1 \<and> accepted self b
             \<and> processImage t1 a = Inr t2 \<and> accepted t1 a
             \<and> trail_image t2 = trail_image s2"
    if dis: "\<forall>i<npixels a. \<not> (is_star a ?thr i \<and> is_star b ?thr i)"
  proof -
    have sab: "shape a = shape b" using sa sb by simp
    have oldb: "trail_image (establish self b) = Some old"
      using establish_same_shape(1) [OF sab, of self] old by simp
    have cb: "pixels_cutoff (establish self b) = pixels_cutoff (establish self a)"
      by (rule establish_same_shape(2) [OF sab])
    have ab': "accepted self b"
      using ab accepted_cong [of s1 self b] m1 e1 cb by simp
    let ?m1 = "select_image ?thr old b (gray_view b)"
    let ?u1 = "(accept (establish self b) b)\<lparr> trail_image := Some ?m1 \<rparr>"
    have rb': "processImage self b = Inr ?u1"
      by (rule processImage_accepted_Inr [OF ab' oldb sb])
    have eu: "establish ?u1 a = ?u1" by simp
    have aa': "accepted ?u1 a"
      using aa accepted_cong [of ?u1 self a] cb by (simp add: eu)
    have tu: "trail_image (establish ?u1 a) = Some ?m1" by (simp add: eu)
    have su: "shape a = shape ?m1" using sa by simp
    let ?u2 = "(accept (establish ?u1 a) a)\<lparr> trail_image :=
            Some (select_image (mask_threshold ?u1) ?m1 a (gray_view a)) \<rparr>"
    have ra': "processImage ?u1 a = Inr ?u2"
      by (rule processImage_accepted_Inr [OF aa' tu su])
    have "select_image ?thr ?n1 b (gray_view b) = select_image ?thr ?m1 a (gray_view a)"
      using select_image_commute [OF wo wa wb sa sb, of ?thr] dis npixels_shape [OF sa] by simp
    then have "trail_image ?u2 = trail_image s2"
      by (simp add: t2)
    then show ?thesis
      using rb' ab' ra' aa' by blast
  qed
  show ?thesis
    using sa sb t2 later part2 by auto
qed

text \<open>
  The first two example frames have their stars at pixels 0 and 2: either order gives the
  same trail image. The third frame's star is at pixel 0, as the first frame's: fed after
  the first, it leaves its own sample 210 there.
\<close>

theorem order_of_disjoint_frames_witness:
  "processImage lenient frame_a = Inr after_a \<and> processImage after_a frame_b = Inr after_a_b
   \<and> (\<exists>t1 t2. processImage lenient frame_b = Inr t1 \<and> processImage t1 frame_a = Inr t2
         \<and> trail_image t2 = Some (Gray (NdArray 1 8 [200, 0, 255, 0, 0, 0, 0, 0])))
   \<and> processImage after_a frame_c = Inr after_a_c
   \<and> (\<exists>new. trail_image after_a_c = Some new \<and> samples new 0 = [210])"
proof -
  have w: "wf_image frame_a" "wf_image frame_b" "wf_image frame_c"
    by (simp_all add: wf_array_def example_defs frame_c_def)
  have acc: "accepted lenient frame_a" "accepted after_a frame_b" "accepted after_a frame_c"
    by code_simp+
  have m: "mask_threshold lenient = 190"
    by (simp add: lenient_def new_generator_def)
  have n: "npixels frame_a = 8" "npixels frame_c = 8"
    by (simp_all add: npixels_def example_defs frame_c_def)
  have d: "\<not> (is_star frame_a 190 i \<and> is_star frame_b 190 i)" if "i < 8" for i
  proof (cases i)
    case 0
    then show ?thesis
      by (simp add: is_star_def example_defs)
  next
    case (Suc j)
    then have "j < length [0, 0, 0, 0, 0, 0, 0 :: u8]"
      using that by simp
    from nth_mem [OF this] have "[0, 0, 0, 0, 0, 0, 0 :: u8] ! j = 0"
      by simp
    then show ?thesis
      using Suc by (simp add: is_star_def example_defs)
  qed
  have s: "is_star frame_c 190 0" "samples frame_c 0 = [210]"
    by (simp_all add: is_star_def frame_c_def)
  have t: "trail_image after_a_b = Some (Gray (NdArray 1 8 [200, 0, 255, 0, 0, 0, 0, 0]))"
    by (simp add: example_defs)
  from order_of_disjoint_frames [OF consistent_lenient w(1,2) run_a acc(1) run_a_b acc(2)] d
  have one: "\<exists>t1 t2. processImage lenient frame_b = Inr t1 \<and> processImage t1 frame_a = Inr t2
         \<and> trail_image t2 = Some (Gray (NdArray 1 8 [200, 0, 255, 0, 0, 0, 0, 0]))"
    unfolding m n t by blast
  from order_of_disjoint_frames [OF consistent_lenient w(1,3) run_a acc(1) run_a_c acc(3)] s
  have two: "\<exists>new. trail_image after_a_c = Some new \<and> samples new 0 = [210]"
    unfolding m n by auto
  show ?thesis
    using run_a run_a_b run_a_c one two by simp
qed

section \<open>The end-to-end scenario\<close>

text \<open>A dim frame with one pixel of value 255.\<close>

lemma length_sky [simp]: "length sky = 10000"
  by (simp add: sky_def)

lemma nth_sky: "i < 10000 \<Longrightarrow> sky ! i = (if i < 9765 then 20 else 19)"
  by (simp add: sky_def nth_append)

lemma sum_list_update_int:
  fixes xs :: "int list"
  shows "k < length xs \<Longrightarrow> sum_list (xs[k := x]) = sum_list xs + x - xs ! k"
proof (induction xs arbitrary: k)
  case Nil
  then show ?case by simp
next
  case (Cons y ys)
  then show ?case by (cases k) simp_all
qed

lemma sum_sky: "sum_list (map uint sky) = 199765"
  by (simp add: sky_def sum_list_replicate)

lemma sum_star_frame:
  assumes "k < 25"
  shows "sum_list (map uint (sky[101 * k := 255])) = 200000"
proof -
  have p: "101 * k < 9765" using assms by simp
  then have "map uint (sky[101 * k := 255]) = (map uint sky)[101 * k := 255]"
    by (simp add: map_update)
  then show ?thesis
    using p by (simp add: sum_list_update_int sum_sky nth_sky)
qed

lemma double_20: "to_double (200000 * to_double (1 / 10000)) = 20"
  by code_simp

lemma double_cutoff: "to_double (to_double 10000 * to_double (to_double (1 / 10) / 100)) = 10"
  by code_simp

lemma mean_star_frame: "k < 25 \<Longrightarrow> cv_mean (gray_view (star_frame k)) = 20"
  by (simp add: star_frame_def cv_mean_def sum_star_frame double_20)

lemma dim_sky: "map (\<lambda>g. if (190::int) < uint g then 1 else (0::nat)) sky = replicate 10000 0"
proof -
  have "replicate 9765 (0::nat) @ replicate 235 0 = replicate 10000 0"
    by (simp add: replicate_add [symmetric])
  then show ?thesis by (simp add: sky_def)
qed

lemma count_star_frame:
  assumes "k < 25"
  shows "count_above (gray_view (star_frame k)) 190 = 1"
proof -
  have p: "101 * k < 10000" using assms by simp
  have "map (\<lambda>g. if (190::int) < uint g then 1 else (0::nat)) (sky[101 * k := 255])
          = (replicate 10000 0)[101 * k := 1]"
    by (simp add: map_update dim_sky)
  then show ?thesis
    using p by (simp add: count_above_def star_frame_def sum_list_update)
qed

lemma select_star_frame:
  fixes ts :: "u8 list"
  assumes "length ts = 10000" and "k < 25"
  shows "select_list 190 ts (sky[101 * k := 255]) (sky[101 * k := 255]) = ts[101 * k := 255]"
proof (rule nth_equalityI)
  show "length (select_list 190 ts (sky[101 * k := 255]) (sky[101 * k := 255]))
          = length (ts[101 * k := 255])"
    using assms by simp
next
  fix i
  assume "i < length (select_list 190 ts (sky[101 * k := 255]) (sky[101 * k := 255]))"
  then have i: "i < 10000" using assms by simp
  show "select_list 190 ts (sky[101 * k := 255]) (sky[101 * k := 255]) ! i = ts[101 * k := 255] ! i"
    using i assms by (cases "i = 101 * k") (simp_all add: nth_select_list nth_sky)
qed

lemma processImage_establish: "processImage (establish self img) img = processImage self img"
proof -
  have "establish (establish self img) img = establish self img"
    using establish_trail_Some [of self img] by auto
  then show ?thesis
    by (simp add: processImage_def)
qed

lemma feed_establish: "feed (establish self img) (img # rest) = feed self (img # rest)"
  by (simp add: processImage_establish)

lemma star_frame_step:
  assumes k: "k < 25"
    and cfg: "max_brightness self = 50" "mask_threshold self = 190"
    and tr: "trail_image self = Some (Gray (NdArray 100 100 ts))" and len: "length ts = 10000"
    and cut: "pixels_cutoff self = Some 10"
  shows "processImage self (star_frame k) =
     Inr ((accept self (star_frame k))\<lparr> trail_image :=
            Some (Gray (NdArray 100 100 (ts[101 * k := 255]))) \<rparr>)"
proof -
  have e: "establish self (star_frame k) = self" using tr by simp
  have acc: "accepted self (star_frame k)"
    by (simp add: accepted_def overbright_def e cut cfg mean_star_frame [OF k]
        count_star_frame [OF k])
  have sh: "shape (star_frame k) = shape (Gray (NdArray 100 100 ts))"
    by (simp add: shape_def star_frame_def)
  have sel: "select_image 190 (Gray (NdArray 100 100 ts)) (star_frame k) (gray_view (star_frame k))
               = Gray (NdArray 100 100 (ts[101 * k := 255]))"
    using select_star_frame [OF len k] by (simp add: star_frame_def)
  show ?thesis
    using processImage_accepted_Inr [OF acc _ sh] tr
    by (simp add: e cfg sel)
qed

lemma feed_star_frames:
  assumes ks: "\<forall>k\<in>set ks. k < 25"
    and cfg: "max_brightness self = 50" "mask_threshold self = 190"
      "background_image_brightness self = 20"
    and tr: "trail_image self = Some (Gray (NdArray 100 100 ts))" and len: "length ts = 10000"
    and cut: "pixels_cutoff self = Some 10"
  shows "feed self (map star_frame ks) =
     Inr (self\<lparr> trail_count := trail_count self + length ks,
               trail_image := Some (Gray (NdArray 100 100 (paint ks ts))) \<rparr>)"
  using assms
proof (induction ks arbitrary: self ts)
  case Nil
  then show ?case by (simp add: paint_def)
next
  case (Cons k ks)
  have k: "k < 25" using Cons.prems by simp
  have nb: "\<not> new_background self (star_frame k)"
    using Cons.prems by (simp add: new_background_def mean_star_frame [OF k])
  let ?s = "self\<lparr> trail_count := trail_count self + 1,
               trail_image := Some (Gray (NdArray 100 100 (ts[101 * k := 255]))) \<rparr>"
  have step: "processImage self (star_frame k) = Inr ?s"
    using star_frame_step [OF k, of self ts] Cons.prems nb by (simp add: accept_def)
  have "feed ?s (map star_frame ks) =
     Inr (?s\<lparr> trail_count := trail_count ?s + length ks,
               trail_image := Some (Gray (NdArray 100 100 (paint ks (ts[101 * k := 255])))) \<rparr>)"
    using Cons.prems by (intro Cons.IH) simp_all
  then show ?case
    using step by (simp add: paint_def)
qed

lemma establish_new_star_frame:
  "establish new_generator (star_frame 0) =
     new_generator\<lparr> pixels_cutoff := Some 10,
       trail_image := Some (Gray (NdArray 100 100 (replicate 10000 0))) \<rparr>"
  by (simp add: establish_def new_generator_def star_frame_def zeros2_def double_cutoff)

lemma feed_new_star_frames: "feed new_generator star_frames = Inr after_star_frames"
proof -
  let ?g = "new_generator\<lparr> pixels_cutoff := Some 10,
       trail_image := Some (Gray (NdArray 100 100 (replicate 10000 0))) \<rparr>"
  let ?h = "?g\<lparr> trail_count := 1, background_image_brightness := 20,
       background_image := Some (star_frame 0),
       trail_image := Some (Gray (NdArray 100 100 ((replicate 10000 0)[101 * 0 := 255]))) \<rparr>"
  have l: "[0..<25] = 0 # [1..<25]"
    by (simp add: upt_conv_Cons)
  have nb: "new_background ?g (star_frame 0)"
    by (simp add: new_background_def mean_star_frame new_generator_def)
  have first: "processImage ?g (star_frame 0) = Inr ?h"
    using star_frame_step [of 0 ?g "replicate 10000 0"] nb
    by (simp add: accept_def new_generator_def mean_star_frame)
  have rest: "feed ?h (map star_frame [1..<25]) =
     Inr (?h\<lparr> trail_count := trail_count ?h + length [1..<25],
               trail_image := Some (Gray (NdArray 100 100
                 (paint [1..<25] ((replicate 10000 0)[101 * 0 := 255])))) \<rparr>)"
    by (rule feed_star_frames) (simp_all add: new_generator_def)
  have "feed new_generator (map star_frame [0..<25]) = feed ?g (map star_frame [0..<25])"
    unfolding l list.map
    by (simp only: establish_new_star_frame [symmetric] feed_establish)
  also have "\<dots> = feed ?h (map star_frame [1..<25])"
    unfolding l list.map using first by simp
  finally show ?thesis
    using rest
    by (simp add: star_frames_def after_star_frames_def star_trail_def new_generator_def l paint_def)
qed

lemma length_paint [simp]: "length (paint ks ts) = length ts"
  unfolding paint_def by (induction ks arbitrary: ts) simp_all

lemma nth_paint:
  "i < length ts \<Longrightarrow> paint ks ts ! i = (if i \<in> (\<lambda>k. 101 * k) ` set ks then 255 else ts ! i)"
  unfolding paint_def
proof (induction ks arbitrary: ts)
  case Nil
  then show ?case by simp
next
  case (Cons k ks)
  then show ?case by (auto simp: nth_list_update)
qed

lemma final_selection:
  "select_list 10 (sky[101 * 0 := 255]) star_trail star_trail = star_output"
proof (rule nth_equalityI)
  show "length (select_list 10 (sky[101 * 0 := 255]) star_trail star_trail) = length star_output"
    by (simp add: star_trail_def star_output_def)
next
  fix i
  assume "i < length (select_list 10 (sky[101 * 0 := 255]) star_trail star_trail)"
  then have i: "i < 10000" by (simp add: star_trail_def)
  have z: "(0::nat) \<in> (\<lambda>k. 101 * k) ` set [0..<25]" by force
  show "select_list 10 (sky[101 * 0 := 255]) star_trail star_trail ! i = star_output ! i"
  proof (cases "i \<in> (\<lambda>k. 101 * k) ` set [0..<25]")
    case True
    then show ?thesis
      using i by (simp add: nth_select_list star_trail_def star_output_def nth_paint)
  next
    case False
    then have "i \<noteq> 0" using z by metis
    then show ?thesis
      using i False by (simp add: nth_select_list star_trail_def star_output_def nth_paint)
  qed
qed

lemma finalize_after_star_frames:
  "finalize after_star_frames = Inr (Gray (NdArray 100 100 star_output))"
proof -
  have "put_stars_on_background (star_frame 0) (Gray (NdArray 100 100 star_trail))
          (gray_view (Gray (NdArray 100 100 star_trail))) 10
        = Inr (Gray (NdArray 100 100 star_output))"
    using final_selection by (simp add: put_stars_Gray star_frame_def)
  then show ?thesis
    by (simp add: finalize_def after_star_frames_def new_generator_def)
qed

lemma star_output_bright:
  "{i. i < 10000 \<and> star_output ! i = 255} = (\<lambda>k. 101 * k) ` {0..<25}"
proof -
  have "(star_output ! i = 255) = (i \<in> (\<lambda>k. 101 * k) ` {0..<25})" if "i < 10000" for i
    using that by (simp add: star_output_def nth_paint nth_sky)
  moreover have "i < 10000" if "i \<in> (\<lambda>k. 101 * k) ` {0..<25}" for i :: nat
    using that by auto
  ultimately show ?thesis by blast
qed

lemma star_output_bright_card: "card {i. i < 10000 \<and> star_output ! i = 255} = 25"
proof -
  have "inj_on (\<lambda>k::nat. 101 * k) {0..<25}"
    by (simp add: inj_on_def)
  then show ?thesis
    by (simp add: star_output_bright card_image)
qed

lemma star_output_nonzero: "{i. i < 10000 \<and> star_output ! i \<noteq> 0} = {..<10000}"
proof -
  have "star_output ! i \<noteq> 0" if "i < 10000" for i
    using that by (simp add: star_output_def nth_paint nth_sky)
  then show ?thesis by auto
qed

lemma star_frame_means: "map (\<lambda>f. cv_mean (gray_view f)) star_frames = replicate 25 20"
proof -
  have "map (\<lambda>f. cv_mean (gray_view f)) star_frames = map (\<lambda>k. 20) [0..<25]"
    unfolding star_frames_def map_map by (intro map_cong) (simp_all add: mean_star_frame)
  then show ?thesis by (simp add: map_replicate_const)
qed

lemma star_frame_counts: "map (\<lambda>f. count_above (gray_view f) 190) star_frames = replicate 25 1"
proof -
  have "map (\<lambda>f. count_above (gray_view f) 190) star_frames = map (\<lambda>k. 1) [0..<25]"
    unfolding star_frames_def map_map by (intro map_cong) (simp_all add: count_star_frame)
  then show ?thesis by (simp add: map_replicate_const)
qed

text \<open>
  C9. The specification's scenario feeds 25 frames of 100 by 100 pixels, each "all-zero"
  but for one pixel of value 255 at a place of its own and each of mean brightness 20, and
  expects 25 accepted frames, none excluded, a successful \<open>finalize\<close> and an output with
  exactly 25 non-zero pixels, at those places.

  A frame of mean 20 is not zero elsewhere. On frames of mean 20 with one bright pixel
  each, all 25 are accepted and none is excluded, the first becomes the background image,
  \<open>finalize\<close> succeeds, and the output has the value 255 at exactly the 25 places. Its
  other pixels are the background's.
\<close>

theorem star_frames_run:
  "map (\<lambda>f. cv_mean (gray_view f)) star_frames = replicate 25 20
   \<and> map (\<lambda>f. count_above (gray_view f) 190) star_frames = replicate 25 1
   \<and> feed new_generator star_frames = Inr after_star_frames
   \<and> trail_count after_star_frames = 25 \<and> excluded_images after_star_frames = 0
   \<and> finalize after_star_frames = Inr (Gray (NdArray 100 100 star_output))
   \<and> main new_generator star_frames = Inr (Gray (NdArray 100 100 star_output))
   \<and> length star_output = 10000
   \<and> {i. i < 10000 \<and> star_output ! i = 255} = (\<lambda>k. 101 * k) ` {0..<25}
   \<and> card {i. i < 10000 \<and> star_output ! i = 255} = 25"
  using star_frame_means star_frame_counts feed_new_star_frames finalize_after_star_frames
    star_output_bright star_output_bright_card
  by (simp add: main_def after_star_frames_def new_generator_def star_output_def)

text \<open>
  Against the claim as stated: on these frames the output of \<open>main\<close> has no zero pixel at
  all, so its non-zero pixels are 10000 and not 25.
\<close>

theorem star_frames_output_nowhere_zero:
  "map (\<lambda>f. cv_mean (gray_view f)) star_frames = replicate 25 20
   \<and> main new_generator star_frames = Inr (Gray (NdArray 100 100 star_output))
   \<and> card {i. i < 10000 \<and> star_output ! i \<noteq> 0} = 10000"
  using star_frame_means feed_new_star_frames finalize_after_star_frames
  by (simp add: main_def star_output_nonzero)

end
